theory Spec2Isabelle
  imports Main "HOL-Library.Sublist"
begin

section \<open>Python values used by the component\<close>

text \<open>
  The component (\<^verbatim>\<open>src/component.py\<close>) reads one input table with pandas, turns two text
  columns into booleans, sends the records to the Brevo API in batches and writes one audit
  row per API call to \<^verbatim>\<open>output.csv\<close>. Python strings are modelled as \<^typ>\<open>string\<close>.
\<close>

subsection \<open>Strings\<close>

text \<open>
  \<^verbatim>\<open>str.lower()\<close> on the ASCII letters. Code points outside ASCII are left as they are:
  none of them lower-cases to one of the letters of \<^verbatim>\<open>'true'\<close>, the only string the
  component compares a lower-cased value with.
\<close>

definition lower_char :: "char \<Rightarrow> char" where
  "lower_char c =
     (let n = (of_char c :: nat)
      in if 65 \<le> n \<and> n \<le> 90 then char_of (n + 32) else c)"

definition lower :: "string \<Rightarrow> string" where
  "lower s = map lower_char s"

text \<open>\<^verbatim>\<open>str(n)\<close> for an integer, as an f-string formats a status code.\<close>

definition digit_char :: "nat \<Rightarrow> char" where
  "digit_char d = char_of (48 + d)"

fun str_nat :: "nat \<Rightarrow> string" where
  "str_nat n = (if n < 10 then [digit_char n] else str_nat (n div 10) @ [digit_char (n mod 10)])"

definition str_int :: "int \<Rightarrow> string" where
  "str_int i = (if i < 0 then CHR ''-'' # str_nat (nat (- i)) else str_nat (nat i))"

subsection \<open>Cells of the input table\<close>

text \<open>
  The table is loaded with \<^verbatim>\<open>pd.read_csv(path, dtype=str)\<close>: a cell is a Python \<^verbatim>\<open>str\<close>,
  or the missing value \<^verbatim>\<open>nan\<close> (a \<^verbatim>\<open>float\<close>), which has no string methods.
\<close>

datatype cell = Str string | NaN

text \<open>\<^verbatim>\<open>f"{x}"\<close> of a cell.\<close>

fun format_cell :: "cell \<Rightarrow> string" where
  "format_cell (Str s) = s"
| "format_cell NaN = ''nan''"

text \<open>JSON values, as \<^verbatim>\<open>response.json()\<close> returns them; a \<^verbatim>\<open>dict\<close> is an association list.\<close>

datatype pyval =
    PyNone
  | PyBool bool
  | PyInt int
  | PyFloat string
  | PyStr string
  | PyList "pyval list"
  | PyDict "(string \<times> pyval) list"

text \<open>\<^verbatim>\<open>d.get(key, default)\<close>\<close>

definition dict_get :: "(string \<times> pyval) list \<Rightarrow> string \<Rightarrow> pyval \<Rightarrow> pyval" where
  "dict_get d k dflt = (case map_of d k of Some v \<Rightarrow> v | None \<Rightarrow> dflt)"

subsection \<open>Exceptions\<close>

datatype exn =
    UserException string
  | KeyError "string list"
  | AttributeError string
  | JSONDecodeError
  | ValueError string
  | OSError string
  | SystemExit int

section \<open>Record Normalizer\<close>

record dataframe =
  columns :: "string list"
  data :: "cell list list"

record raw_contact =
  raw_email :: cell
  raw_emailBlacklisted :: cell
  raw_smsBlacklisted :: cell
  raw_transactionalContact :: cell

record contact =
  email :: cell
  emailBlacklisted :: bool
  smsBlacklisted :: bool
  transactionalContact :: cell

definition selected_columns :: "string list" where
  "selected_columns = [''email'', ''emailBlacklisted'', ''smsBlacklisted'', ''transactionalContact'']"

text \<open>The cell of a row under a column name; pandas pads a short row with \<^verbatim>\<open>nan\<close>.\<close>

definition cell_at :: "string list \<Rightarrow> cell list \<Rightarrow> string \<Rightarrow> cell" where
  "cell_at cols row c = (case map_of (zip cols row) c of Some v \<Rightarrow> v | None \<Rightarrow> NaN)"

text \<open>\<^verbatim>\<open>csv_data[selected_columns]\<close>: a \<^verbatim>\<open>KeyError\<close> naming the columns that are absent.\<close>

definition select_columns :: "dataframe \<Rightarrow> exn + raw_contact list" where
  "select_columns df =
     (let missing = filter (\<lambda>c. c \<notin> set (columns df)) selected_columns
      in if missing \<noteq> [] then Inl (KeyError missing)
         else Inr (map (\<lambda>row.
                \<lparr> raw_email = cell_at (columns df) row ''email'',
                  raw_emailBlacklisted = cell_at (columns df) row ''emailBlacklisted'',
                  raw_smsBlacklisted = cell_at (columns df) row ''smsBlacklisted'',
                  raw_transactionalContact = cell_at (columns df) row ''transactionalContact'' \<rparr>)
                (data df)))"

text \<open>\<^verbatim>\<open>lambda x: True if x.lower() == 'true' else False\<close>\<close>

fun to_bool :: "cell \<Rightarrow> exn + bool" where
  "to_bool (Str x) = Inr (if lower x = ''true'' then True else False)"
| "to_bool NaN = Inl (AttributeError ''lower'')"

text \<open>\<^verbatim>\<open>Series.apply(f)\<close>: \<open>f\<close> on every cell in order, stopping at the first exception.\<close>

fun apply_series :: "('a \<Rightarrow> exn + 'b) \<Rightarrow> 'a list \<Rightarrow> exn + 'b list" where
  "apply_series f [] = Inr []"
| "apply_series f (x # xs) =
     (case f x of
        Inl e \<Rightarrow> Inl e
      | Inr y \<Rightarrow> (case apply_series f xs of Inl e \<Rightarrow> Inl e | Inr ys \<Rightarrow> Inr (y # ys)))"

definition mk_contact :: "raw_contact \<Rightarrow> bool \<Rightarrow> bool \<Rightarrow> contact" where
  "mk_contact r e s =
     \<lparr> email = raw_email r, emailBlacklisted = e, smsBlacklisted = s,
       transactionalContact = raw_transactionalContact r \<rparr>"

text \<open>The two column conversions of \<^verbatim>\<open>run\<close>, the \<^verbatim>\<open>emailBlacklisted\<close> column first.\<close>

definition normalize :: "raw_contact list \<Rightarrow> exn + contact list" where
  "normalize rs =
     (case apply_series to_bool (map raw_emailBlacklisted rs) of
        Inl e \<Rightarrow> Inl e
      | Inr es \<Rightarrow>
          (case apply_series to_bool (map raw_smsBlacklisted rs) of
             Inl e \<Rightarrow> Inl e
           | Inr ss \<Rightarrow> Inr (map (\<lambda>(r, e, s). mk_contact r e s) (zip rs (zip es ss)))))"

text \<open>
  The sixteen spellings of \<^verbatim>\<open>true\<close> in upper and lower case: the strings that equal
  \<^verbatim>\<open>"true"\<close> when compared case-insensitively.
\<close>

definition true_spellings :: "string list" where
  "true_spellings =
     [ [a, b, c, d]. a \<leftarrow> ''tT'', b \<leftarrow> ''rR'', c \<leftarrow> ''uU'', d \<leftarrow> ''eE'']"

section \<open>Batcher\<close>

definition max_records_per_request :: nat where
  "max_records_per_request = 1"

text \<open>\<^verbatim>\<open>range(lo, hi, step)\<close> for a positive step.\<close>

definition py_range :: "nat \<Rightarrow> nat \<Rightarrow> nat \<Rightarrow> nat list" where
  "py_range lo hi step = map (\<lambda>k. lo + k * step) [0 ..< (hi - lo + step - 1) div step]"

text \<open>\<^verbatim>\<open>df.iloc[i:j].to_dict(orient='records')\<close>\<close>

definition iloc :: "'a list \<Rightarrow> nat \<Rightarrow> nat \<Rightarrow> 'a list" where
  "iloc xs i j = take (j - i) (drop i xs)"

definition payloads :: "nat \<Rightarrow> 'a list \<Rightarrow> 'a list list" where
  "payloads n xs = map (\<lambda>i. iloc xs i (i + n)) (py_range 0 (length xs) n)"

section \<open>The world outside the component\<close>

record table =
  table_name :: string
  frame :: dataframe

record response =
  status_code :: int
  response_text :: string
  json :: "pyval option"

datatype request = Post "contact list" | Delete cell

datatype log_entry = Info string | Warning string | Exception exn

record audit_row =
  row_id :: string
  row_timestamp :: string
  row_email :: cell
  row_status :: pyval

datatype line = Header "string list" | Row audit_row

text \<open>
  What a run cannot decide by itself: the configured input tables, each with the frame
  \<^verbatim>\<open>pd.read_csv\<close> loads from it; whether creating the two output table definitions and
  opening the output file raise; the answer of the remote API to the \<open>k\<close>-th request of the
  run (\<open>json\<close> is what \<^verbatim>\<open>response.json()\<close> parses, \<open>None\<close> when the body is not JSON);
  the reading of the wall clock at the \<open>k\<close>-th call of \<^verbatim>\<open>datetime.now()\<close>, already formatted
  as \<^verbatim>\<open>%Y-%m-%d %H:%M:%S\<close>; and \<^verbatim>\<open>hashlib.md5(...).hexdigest()\<close>.
\<close>

record env =
  in_tables :: "table list"
  stats_def_error :: "exn option"
  output_def_error :: "exn option"
  open_error :: "exn option"
  http :: "nat \<Rightarrow> request \<Rightarrow> response"
  clock :: "nat \<Rightarrow> string"
  md5 :: "string \<Rightarrow> string"

text \<open>
  The component's attributes and the effects of a run: whether \<^verbatim>\<open>self._output_file\<close> and
  \<^verbatim>\<open>self._output_writer\<close> have been assigned, the output file (open or not, how often it
  was opened and closed, its lines), the requests sent, the clock readings taken, the log.
\<close>

record state =
  output_file_set :: bool
  output_writer_set :: bool
  file_open :: bool
  opens :: nat
  closes :: nat
  lines :: "line list"
  calls :: "request list"
  clock_reads :: nat
  logged :: "log_entry list"

text \<open>After \<^verbatim>\<open>__init__\<close>: \<^verbatim>\<open>_output_writer\<close> is \<^verbatim>\<open>None\<close>, \<^verbatim>\<open>_output_file\<close> does not exist.\<close>

definition init :: state where
  "init = \<lparr> output_file_set = False, output_writer_set = False, file_open = False,
            opens = 0, closes = 0, lines = [], calls = [], clock_reads = 0, logged = [] \<rparr>"

definition logging :: "log_entry \<Rightarrow> state \<Rightarrow> state" where
  "logging entry s = s\<lparr>logged := logged s @ [entry]\<rparr>"

definition writerow :: "audit_row \<Rightarrow> state \<Rightarrow> state" where
  "writerow r s = s\<lparr>lines := lines s @ [Row r]\<rparr>"

definition now :: "env \<Rightarrow> state \<Rightarrow> string \<times> state" where
  "now E s = (clock E (clock_reads s), s\<lparr>clock_reads := Suc (clock_reads s)\<rparr>)"

section \<open>API Client\<close>

definition send_request :: "env \<Rightarrow> request \<Rightarrow> state \<Rightarrow> response \<times> state" where
  "send_request E rq s = (http E (length (calls s)) rq, s\<lparr>calls := calls s @ [rq]\<rparr>)"

definition send_data_to_api :: "env \<Rightarrow> contact list \<Rightarrow> state \<Rightarrow> (exn + pyval) \<times> state" where
  "send_data_to_api E payload s =
     (let (response, s1) = send_request E (Post payload) s
      in if status_code response = 204 then (Inr (PyStr ''Email updated (Sms,Email)''), s1)
         else if status_code response = 200 then
           (case json response of None \<Rightarrow> (Inl JSONDecodeError, s1) | Some v \<Rightarrow> (Inr v, s1))
         else if status_code response = 404 then
           (Inr (PyStr ''Email not found''),
            logging (Warning (''API returned 404 status. Response: '' @ response_text response)) s1)
         else
           (Inl (UserException (''Failed to send data to API. Status Code: ''
                   @ str_int (status_code response) @ '', Response: '' @ response_text response)),
            s1))"

definition delete_data_from_api :: "env \<Rightarrow> cell \<Rightarrow> state \<Rightarrow> (exn + string) \<times> state" where
  "delete_data_from_api E email' s =
     (let (response, s1) = send_request E (Delete email') s
      in if status_code response = 204 then (Inr ''Unblock or resubscribe a transactional Email'', s1)
         else if status_code response = 404 then
           (Inr ''Transactional Email not found'',
            logging (Warning (''API returned 404 status. Response: '' @ response_text response)) s1)
         else
           (Inl (UserException (''Failed to delete data from API. Status Code: ''
                   @ str_int (status_code response) @ '', Response: '' @ response_text response)),
            s1))"

section \<open>Table Reader\<close>

text \<open>
  \<^verbatim>\<open>pd.read_csv(path, dtype=str)\<close> with its default handling of missing values: a field
  whose text is one of the default markers of pandas 2, the empty field among them, is loaded
  as \<^verbatim>\<open>nan\<close>, every other field as the \<^verbatim>\<open>str\<close> of its text. The file is given by its header
  and the fields of its rows.
\<close>

definition na_values :: "string list" where
  "na_values =
     ['''', ''#N/A'', ''#N/A N/A'', ''#NA'', ''-1.#IND'', ''-1.#QNAN'', ''-NaN'', ''-nan'',
      ''1.#IND'', ''1.#QNAN'', ''<NA>'', ''N/A'', ''NA'', ''NULL'', ''NaN'', ''None'', ''n/a'',
      ''nan'', ''null'']"

definition read_field :: "string \<Rightarrow> cell" where
  "read_field x = (if x \<in> set na_values then NaN else Str x)"

definition read_csv :: "string list \<Rightarrow> string list list \<Rightarrow> dataframe" where
  "read_csv header rows = \<lparr> columns = header, data = map (map read_field) rows \<rparr>"

definition parse_table :: "env \<Rightarrow> state \<Rightarrow> (exn + dataframe) \<times> state" where
  "parse_table E s =
     (if length (in_tables E) = 0 then
        (Inl (UserException
           ''There is no table specified on the input mapping! You must provide one input table!''), s)
      else if length (in_tables E) > 1 then
        (Inl (UserException
           ''There is more than one table specified on the input mapping! You must provide one input table!''), s)
      else
        (let table = in_tables E ! 0;
             s1 = logging (Info (''Processing input table: '' @ table_name table)) s;
             df = frame table;
             s2 = (if data df = [] \<or> columns df = []
                   then logging (Info (''Input table '' @ table_name table @ '' is empty!'')) s1
                   else s1)
         in (Inr df, s2)))"

section \<open>Audit Writer\<close>

definition output_fields :: "string list" where
  "output_fields = [''id'', ''timestamp'', ''email'', ''status'']"

text \<open>
  \<^verbatim>\<open>_create_tables_definitions\<close>: the two table definitions, then \<^verbatim>\<open>open(..., 'wt')\<close>,
  which empties the file, the assignment of both attributes, and the header.
\<close>

definition create_tables_definitions :: "env \<Rightarrow> state \<Rightarrow> (exn + unit) \<times> state" where
  "create_tables_definitions E s =
     (case stats_def_error E of
        Some e \<Rightarrow> (Inl e, s)
      | None \<Rightarrow>
     (case output_def_error E of
        Some e \<Rightarrow> (Inl e, s)
      | None \<Rightarrow>
     (case open_error E of
        Some e \<Rightarrow> (Inl e, s)
      | None \<Rightarrow>
        (Inr (), s\<lparr> output_file_set := True, file_open := True, opens := Suc (opens s),
                   output_writer_set := True, lines := [Header output_fields] \<rparr>))))"

definition create_hash :: "env \<Rightarrow> cell \<Rightarrow> string \<Rightarrow> string" where
  "create_hash E email' timestamp = md5 E (format_cell email' @ timestamp)"

section \<open>Orchestrator\<close>

text \<open>A \<^verbatim>\<open>for\<close> loop whose body may raise: the exception ends the loop, the state stays.\<close>

fun for_each :: "('a \<Rightarrow> state \<Rightarrow> (exn + unit) \<times> state) \<Rightarrow> 'a list \<Rightarrow> state \<Rightarrow> (exn + unit) \<times> state" where
  "for_each body [] s = (Inr (), s)"
| "for_each body (x # xs) s =
     (case body x s of
        (Inl e, s1) \<Rightarrow> (Inl e, s1)
      | (Inr u, s1) \<Rightarrow> for_each body xs s1)"

text \<open>The status of the upsert row: lines 152 to 155 of \<^verbatim>\<open>run\<close>.\<close>

fun status_of :: "pyval \<Rightarrow> pyval" where
  "status_of (PyDict d) = dict_get d ''status'' (PyStr ''Error'')"
| "status_of api_response = api_response"

text \<open>\<^verbatim>\<open>record.get('transactionalContact', '').lower() == 'true'\<close>; the key is always there.\<close>

definition is_transactional :: "contact \<Rightarrow> exn + bool" where
  "is_transactional record =
     (case transactionalContact record of
        Str t \<Rightarrow> Inr (lower t = ''true'')
      | NaN \<Rightarrow> Inl (AttributeError ''lower''))"

text \<open>The body of the loop over the records of a payload.\<close>

definition process_record :: "env \<Rightarrow> pyval \<Rightarrow> contact \<Rightarrow> state \<Rightarrow> (exn + unit) \<times> state" where
  "process_record E api_response record s =
     (let (timestamp, s1) = now E s;
          status = status_of api_response;
          record_hash = create_hash E (email record) timestamp;
          s2 = writerow \<lparr> row_id = record_hash, row_timestamp = timestamp,
                          row_email = email record, row_status = status \<rparr> s1
      in case is_transactional record of
           Inl e \<Rightarrow> (Inl e, s2)
         | Inr False \<Rightarrow> (Inr (), s2)
         | Inr True \<Rightarrow>
             (case delete_data_from_api E (email record) s2 of
                (Inl e, s3) \<Rightarrow> (Inl e, s3)
              | (Inr delete_api_response, s3) \<Rightarrow>
                  (let deleted_record_hash = create_hash E (email record) timestamp
                   in (Inr (), writerow \<lparr> row_id = deleted_record_hash, row_timestamp = timestamp,
                                          row_email = email record,
                                          row_status = PyStr delete_api_response \<rparr> s3))))"

text \<open>
  The body of the loop over the payloads. The list \<^verbatim>\<open>responses\<close> of the source is only
  appended to and never read; it is left out.
\<close>

definition process_payload :: "env \<Rightarrow> contact list \<Rightarrow> state \<Rightarrow> (exn + unit) \<times> state" where
  "process_payload E payload s =
     (if payload \<noteq> [] then
        (case send_data_to_api E payload s of
           (Inl e, s1) \<Rightarrow> (Inl e, s1)
         | (Inr api_response, s1) \<Rightarrow> for_each (process_record E api_response) payload s1)
      else (Inr (), s))"

text \<open>The \<^verbatim>\<open>try\<close> block of \<^verbatim>\<open>run\<close>, with the batch size as a parameter.\<close>

definition run_try :: "nat \<Rightarrow> env \<Rightarrow> state \<Rightarrow> (exn + unit) \<times> state" where
  "run_try n E s =
     (case create_tables_definitions E s of
        (Inl e, s1) \<Rightarrow> (Inl e, s1)
      | (Inr u, s1) \<Rightarrow>
     (case parse_table E s1 of
        (Inl e, s2) \<Rightarrow> (Inl e, s2)
      | (Inr csv_data, s2) \<Rightarrow>
     (case select_columns csv_data of
        Inl e \<Rightarrow> (Inl e, s2)
      | Inr selected \<Rightarrow>
     (case normalize selected of
        Inl e \<Rightarrow> (Inl e, s2)
      | Inr records \<Rightarrow>
        if n = 0 then (Inl (ValueError ''range() arg 3 must not be zero''), s2)
        else for_each (process_payload E) (payloads n records) s2))))"

text \<open>
  The two handlers: \<^verbatim>\<open>UserException\<close> is logged and answered with \<^verbatim>\<open>exit(1)\<close>, any other
  \<^verbatim>\<open>Exception\<close> with \<^verbatim>\<open>exit(2)\<close>; \<^verbatim>\<open>exit\<close> raises \<^verbatim>\<open>SystemExit\<close>, which is not an
  \<^verbatim>\<open>Exception\<close> and is not caught.
\<close>

fun handlers :: "exn \<Rightarrow> state \<Rightarrow> exn \<times> state" where
  "handlers (UserException m) s = (SystemExit 1, logging (Exception (UserException m)) s)"
| "handlers (SystemExit c) s = (SystemExit c, s)"
| "handlers exc s = (SystemExit 2, logging (Exception exc) s)"

text \<open>
  The \<^verbatim>\<open>finally\<close> block: reading \<^verbatim>\<open>self._output_file\<close> raises \<^verbatim>\<open>AttributeError\<close> when the
  attribute was never assigned, and that exception replaces the pending one; a file object
  is true, so an assigned file is closed.
\<close>

definition finally_block :: "exn option \<Rightarrow> state \<Rightarrow> exn option \<times> state" where
  "finally_block pending s =
     (if \<not> output_file_set s then (Some (AttributeError ''_output_file''), s)
      else (pending, s\<lparr>file_open := False, closes := Suc (closes s)\<rparr>))"

definition run_with :: "nat \<Rightarrow> env \<Rightarrow> state \<Rightarrow> exn option \<times> state" where
  "run_with n E s =
     (case run_try n E s of
        (Inr u, s1) \<Rightarrow> finally_block None s1
      | (Inl e, s1) \<Rightarrow> (case handlers e s1 of (e', s2) \<Rightarrow> finally_block (Some e') s2))"

text \<open>\<^verbatim>\<open>run\<close>: the result is the exception that leaves it, \<open>None\<close> when it returns.\<close>

definition run :: "env \<Rightarrow> exn option \<times> state" where
  "run E = run_with max_records_per_request E init"

text \<open>
  The exit code of the process: 0 when \<^verbatim>\<open>run\<close> returns, the argument of \<^verbatim>\<open>exit\<close> when
  \<^verbatim>\<open>SystemExit\<close> leaves it; any other exception leaves \<^verbatim>\<open>run\<close> unhandled, with no code chosen
  by the component.
\<close>

fun exit_code :: "exn option \<Rightarrow> int option" where
  "exit_code None = Some 0"
| "exit_code (Some (SystemExit c)) = Some c"
| "exit_code (Some e) = None"

section \<open>Helper definitions for the statements\<close>

text \<open>
  The specification's rule for a flag: true exactly for a string that is one of the
  spellings of \<^verbatim>\<open>true\<close>.
\<close>

definition spec_flag :: "cell \<Rightarrow> bool" where
  "spec_flag c = (case c of Str x \<Rightarrow> x \<in> set true_spellings | NaN \<Rightarrow> False)"

fun is_str :: "cell \<Rightarrow> bool" where
  "is_str (Str x) = True"
| "is_str NaN = False"

text \<open>The payloads of the upsert requests among the requests sent, in order.\<close>

fun posts :: "request list \<Rightarrow> contact list list" where
  "posts [] = []"
| "posts (Post p # rs) = p # posts rs"
| "posts (Delete a # rs) = posts rs"

text \<open>The number of audit rows the specification expects for a record.\<close>

definition rows_for :: "contact \<Rightarrow> nat" where
  "rows_for r = (if is_transactional r = Inr True then 2 else 1)"

text \<open>
  The two audit rows \<^verbatim>\<open>run\<close> builds for a record when it starts on it in state \<open>s\<close>: the
  timestamp is the clock reading taken then.
\<close>

definition upsert_row :: "env \<Rightarrow> pyval \<Rightarrow> contact \<Rightarrow> state \<Rightarrow> audit_row" where
  "upsert_row E api_response r s =
     \<lparr> row_id = create_hash E (email r) (clock E (clock_reads s)),
       row_timestamp = clock E (clock_reads s),
       row_email = email r,
       row_status = status_of api_response \<rparr>"

definition delete_row :: "env \<Rightarrow> contact \<Rightarrow> state \<Rightarrow> string \<Rightarrow> audit_row" where
  "delete_row E r s delete_api_response =
     \<lparr> row_id = create_hash E (email r) (clock E (clock_reads s)),
       row_timestamp = clock E (clock_reads s),
       row_email = email r,
       row_status = PyStr delete_api_response \<rparr>"

text \<open>The part of the state that concerns the output file handle.\<close>

definition same_handle :: "state \<Rightarrow> state \<Rightarrow> bool" where
  "same_handle s s' \<longleftrightarrow>
     output_file_set s' = output_file_set s \<and> file_open s' = file_open s \<and>
     opens s' = opens s \<and> closes s' = closes s"

text \<open>Nothing before the assignment of \<^verbatim>\<open>self._output_file\<close> raises.\<close>

definition setup_ok :: "env \<Rightarrow> bool" where
  "setup_ok E \<longleftrightarrow> stats_def_error E = None \<and> output_def_error E = None \<and> open_error E = None"

text \<open>The state after \<^verbatim>\<open>_create_tables_definitions\<close> has returned.\<close>

definition opened :: "state \<Rightarrow> state" where
  "opened s = s\<lparr> output_file_set := True, file_open := True, opens := Suc (opens s),
                 output_writer_set := True, lines := [Header output_fields] \<rparr>"

text \<open>The state after \<^verbatim>\<open>_parse_table\<close> has returned the frame of the table \<open>t\<close>.\<close>

definition loaded :: "table \<Rightarrow> state \<Rightarrow> state" where
  "loaded t s =
     (let s1 = logging (Info (''Processing input table: '' @ table_name t)) s
      in if data (frame t) = [] \<or> columns (frame t) = []
         then logging (Info (''Input table '' @ table_name t @ '' is empty!'')) s1
         else s1)"

text \<open>\<^verbatim>\<open>exit\<close> was called: the exception is \<^verbatim>\<open>SystemExit\<close>.\<close>

fun is_exit :: "exn \<Rightarrow> bool" where
  "is_exit (SystemExit c) = True"
| "is_exit e = False"

text \<open>A step keeps the file handle and only appends to the file.\<close>

definition grows :: "state \<Rightarrow> state \<Rightarrow> bool" where
  "grows s s' \<longleftrightarrow> same_handle s s' \<and> prefix (lines s) (lines s')"

section \<open>Example inputs\<close>

text \<open>A table of two records; the first is transactional.\<close>

definition example_frame :: dataframe where
  "example_frame =
     read_csv [''email'', ''emailBlacklisted'', ''smsBlacklisted'', ''transactionalContact'']
       [ [''a@x.io'', ''TRUE'', ''xyz'', ''TRUE''],
         [''b@x.io'', ''False'', ''no'', ''false'']]"

text \<open>
  One input table; the remote API answers the \<open>k\<close>-th request of the run with status
  \<open>codes k\<close> and a JSON body; the clock advances by a second at every reading.
\<close>

definition example_env :: "dataframe \<Rightarrow> (nat \<Rightarrow> int) \<Rightarrow> env" where
  "example_env df codes =
     \<lparr> in_tables = [\<lparr> table_name = ''in.csv'', frame = df \<rparr>],
       stats_def_error = None, output_def_error = None, open_error = None,
       http = (\<lambda>k rq. \<lparr> status_code = codes k, response_text = ''body'',
                          json = Some (PyDict [(''status'', PyStr ''queued'')]) \<rparr>),
       clock = (\<lambda>k. ''2024-01-01 00:00:0'' @ str_nat k),
       md5 = (\<lambda>x. ''md5:'' @ x) \<rparr>"

text \<open>Every request is answered 204; the third request of the run is answered 500.\<close>

definition all_204 :: "nat \<Rightarrow> int" where
  "all_204 k = 204"

definition third_500 :: "nat \<Rightarrow> int" where
  "third_500 k = (if k = 2 then 500 else 204)"

definition first_500 :: "nat \<Rightarrow> int" where
  "first_500 k = (if k = 0 then 500 else 204)"

definition all_404 :: "nat \<Rightarrow> int" where
  "all_404 k = 404"

definition all_200 :: "nat \<Rightarrow> int" where
  "all_200 k = 200"

text \<open>A table without the \<^verbatim>\<open>email\<close> column, and a table with the four columns and no row.\<close>

definition frame_without_email :: dataframe where
  "frame_without_email =
     read_csv [''emailBlacklisted'', ''smsBlacklisted'', ''transactionalContact'']
       [ [''TRUE'', ''false'', ''false'']]"

definition frame_without_rows :: dataframe where
  "frame_without_rows =
     read_csv [''email'', ''emailBlacklisted'', ''smsBlacklisted'', ''transactionalContact''] []"

text \<open>
  A table whose \<^verbatim>\<open>smsBlacklisted\<close> field is empty, and a table of two records whose first
  has an empty \<^verbatim>\<open>transactionalContact\<close> field and whose second is transactional.
\<close>

definition frame_with_empty_flag :: dataframe where
  "frame_with_empty_flag =
     read_csv [''email'', ''emailBlacklisted'', ''smsBlacklisted'', ''transactionalContact'']
       [ [''a@x.io'', ''true'', '''', ''false'']]"

definition frame_with_empty_transactional :: dataframe where
  "frame_with_empty_transactional =
     read_csv [''email'', ''emailBlacklisted'', ''smsBlacklisted'', ''transactionalContact'']
       [ [''a@x.io'', ''false'', ''false'', ''''],
         [''b@x.io'', ''false'', ''false'', ''true'']]"

text \<open>Opening the output file fails.\<close>

definition env_open_fails :: env where
  "env_open_fails = (example_env example_frame all_204)\<lparr> open_error := Some (OSError ''output.csv'') \<rparr>"

text \<open>No input table, and two input tables.\<close>

definition env_no_table :: env where
  "env_no_table = (example_env example_frame all_204)\<lparr> in_tables := [] \<rparr>"

definition env_two_tables :: env where
  "env_two_tables = (example_env example_frame all_204)
     \<lparr> in_tables := [\<lparr> table_name = ''a.csv'', frame = example_frame \<rparr>,
                      \<lparr> table_name = ''b.csv'', frame = example_frame \<rparr>] \<rparr>"

definition example_contact :: "string \<Rightarrow> contact" where
  "example_contact t =
     \<lparr> email = Str ''a@x.io'', emailBlacklisted = True, smsBlacklisted = False,
       transactionalContact = Str t \<rparr>"

section \<open>Lower case and the spellings of true\<close>

lemma of_char_lower_char:
  "(of_char (lower_char c) :: nat) =
     (if 65 \<le> (of_char c :: nat) \<and> (of_char c :: nat) \<le> 90 then of_char c + 32 else of_char c)"
  by (simp add: lower_char_def Let_def)

lemma lower_char_eq_iff:
  assumes "(of_char d :: nat) = k" "97 \<le> k" "k \<le> 122" "(of_char u :: nat) = k - 32"
  shows "lower_char c = d \<longleftrightarrow> c = d \<or> c = u"
proof -
  have "lower_char c = d \<longleftrightarrow> (of_char (lower_char c) :: nat) = of_char d"
    by simp
  also have "\<dots> \<longleftrightarrow> (of_char c :: nat) = k \<or> (of_char c :: nat) = k - 32"
    using assms(1-3) by (auto simp: of_char_lower_char)
  also have "\<dots> \<longleftrightarrow> c = d \<or> c = u"
    using assms(1,4) by (metis of_char_eq_iff)
  finally show ?thesis .
qed

lemma lower_char_t: "lower_char c = CHR ''t'' \<longleftrightarrow> c = CHR ''t'' \<or> c = CHR ''T''"
  by (rule lower_char_eq_iff [where k = 116]) simp_all

lemma lower_char_r: "lower_char c = CHR ''r'' \<longleftrightarrow> c = CHR ''r'' \<or> c = CHR ''R''"
  by (rule lower_char_eq_iff [where k = 114]) simp_all

lemma lower_char_u: "lower_char c = CHR ''u'' \<longleftrightarrow> c = CHR ''u'' \<or> c = CHR ''U''"
  by (rule lower_char_eq_iff [where k = 117]) simp_all

lemma lower_char_e: "lower_char c = CHR ''e'' \<longleftrightarrow> c = CHR ''e'' \<or> c = CHR ''E''"
  by (rule lower_char_eq_iff [where k = 101]) simp_all

lemma set_true_spellings:
  "set true_spellings =
     {[a, b, c, d] | a b c d.
        a \<in> {CHR ''t'', CHR ''T''} \<and> b \<in> {CHR ''r'', CHR ''R''} \<and>
        c \<in> {CHR ''u'', CHR ''U''} \<and> d \<in> {CHR ''e'', CHR ''E''}}"
  unfolding true_spellings_def by auto

lemma lower_eq_true_iff: "lower x = ''true'' \<longleftrightarrow> x \<in> set true_spellings"
proof -
  have "lower x = ''true'' \<longleftrightarrow>
     (\<exists>a b c d. x = [a, b, c, d] \<and> lower_char a = CHR ''t'' \<and> lower_char b = CHR ''r'' \<and>
        lower_char c = CHR ''u'' \<and> lower_char d = CHR ''e'')"
    by (auto simp: lower_def map_eq_Cons_conv)
  also have "\<dots> \<longleftrightarrow> x \<in> set true_spellings"
    unfolding set_true_spellings lower_char_t lower_char_r lower_char_u lower_char_e by blast
  finally show ?thesis .
qed

section \<open>Normalization\<close>

lemma apply_series_total:
  "(\<And>x. x \<in> set xs \<Longrightarrow> f x = Inr (g x)) \<Longrightarrow> apply_series f xs = Inr (map g xs)"
  by (induction xs) auto

lemma to_bool_is_str: "is_str c \<Longrightarrow> to_bool c = Inr (spec_flag c)"
  by (cases c) (simp_all add: spec_flag_def lower_eq_true_iff)

lemma zip_map_map_same:
  "map f (zip xs (zip (map g xs) (map h xs))) = map (\<lambda>x. f (x, g x, h x)) xs"
  by (induction xs) auto

lemma normalize_strs:
  assumes "\<And>r. r \<in> set rs \<Longrightarrow> is_str (raw_emailBlacklisted r) \<and> is_str (raw_smsBlacklisted r)"
  shows "normalize rs =
     Inr (map (\<lambda>r. mk_contact r (spec_flag (raw_emailBlacklisted r))
                                 (spec_flag (raw_smsBlacklisted r))) rs)"
proof -
  have e: "apply_series to_bool (map raw_emailBlacklisted rs)
             = Inr (map spec_flag (map raw_emailBlacklisted rs))"
    by (rule apply_series_total) (use assms in \<open>auto simp: to_bool_is_str\<close>)
  have s: "apply_series to_bool (map raw_smsBlacklisted rs)
             = Inr (map spec_flag (map raw_smsBlacklisted rs))"
    by (rule apply_series_total) (use assms in \<open>auto simp: to_bool_is_str\<close>)
  show ?thesis
    unfolding normalize_def e s by (simp add: zip_map_map_same o_def)
qed

section \<open>Batching\<close>

lemma payloads_eq:
  "payloads n xs = map (\<lambda>k. take n (drop (k * n) xs)) [0 ..< (length xs + n - 1) div n]"
  by (simp add: payloads_def py_range_def iloc_def o_def)

lemma concat_chunks: "concat (map (\<lambda>k. take n (drop (k * n) xs)) [0 ..< m]) = take (m * n) xs"
proof (induction m)
  case 0
  show ?case by simp
next
  case (Suc m)
  have "take (m * n) xs @ take n (drop (m * n) xs) = take (m * n + n) xs"
    by (simp add: take_add)
  with Suc show ?case by (simp add: add.commute)
qed

lemma ceil_covers:
  assumes "0 < n"
  shows "(k::nat) \<le> ((k + n - 1) div n) * n"
proof -
  have "k + n - 1 = ((k + n - 1) div n) * n + (k + n - 1) mod n" by simp
  moreover have "(k + n - 1) mod n < n" using assms by simp
  ultimately show ?thesis by linarith
qed

lemma ceil_less:
  assumes "0 < n" "i < (k + n - 1) div n"
  shows "i * n < (k::nat)"
proof -
  from assms(2) have "Suc i \<le> (k + n - 1) div n" by simp
  then have "Suc i * n \<le> ((k + n - 1) div n) * n" by (rule mult_le_mono1)
  also have "\<dots> \<le> k + n - 1" by simp
  finally show ?thesis using assms(1) by simp
qed

lemma length_payloads: "length (payloads n xs) = (length xs + n - 1) div n"
  by (simp add: payloads_eq)

lemma nth_payloads:
  "i < length (payloads n xs) \<Longrightarrow> payloads n xs ! i = take n (drop (i * n) xs)"
  by (simp add: payloads_eq)

lemma concat_payloads:
  assumes "0 < n"
  shows "concat (payloads n xs) = xs"
proof -
  have "length xs \<le> ((length xs + n - 1) div n) * n" using assms by (rule ceil_covers)
  then show ?thesis unfolding payloads_eq concat_chunks by simp
qed

lemma size_payloads:
  assumes "0 < n" "i < length (payloads n xs)"
  shows "length (payloads n xs ! i)
           = (if Suc i < length (payloads n xs) then n else length xs - i * n)
         \<and> 0 < length (payloads n xs ! i) \<and> length (payloads n xs ! i) \<le> n"
proof -
  have i: "i < (length xs + n - 1) div n" using assms(2) unfolding length_payloads .
  have lt: "i * n < length xs" using assms(1) i by (rule ceil_less)
  have nth: "payloads n xs ! i = take n (drop (i * n) xs)" using assms(2) by (rule nth_payloads)
  have "length (payloads n xs ! i) = (if Suc i < length (payloads n xs) then n else length xs - i * n)"
  proof (cases "Suc i < length (payloads n xs)")
    case True
    then have "Suc i < (length xs + n - 1) div n" unfolding length_payloads .
    with assms(1) have "Suc i * n < length xs" by (rule ceil_less)
    then show ?thesis using True by (simp add: nth)
  next
    case False
    then have "length (payloads n xs) = Suc i" using assms(2) by simp
    then have "(length xs + n - 1) div n = Suc i" unfolding length_payloads .
    moreover have "length xs \<le> ((length xs + n - 1) div n) * n" using assms(1) by (rule ceil_covers)
    ultimately have "length xs \<le> Suc i * n" by simp
    then show ?thesis using False by (simp add: nth)
  qed
  moreover have "0 < length (payloads n xs ! i)" using lt assms(1) by (simp add: nth)
  moreover have "length (payloads n xs ! i) \<le> n" by (simp add: nth)
  ultimately show ?thesis by blast
qed

section \<open>Effects of the API calls\<close>

lemma posts_append: "posts (xs @ ys) = posts xs @ posts ys"
  by (induction xs rule: posts.induct) simp_all

lemma same_handle_refl: "same_handle s s"
  by (simp add: same_handle_def)

lemma same_handle_trans: "same_handle a b \<Longrightarrow> same_handle b c \<Longrightarrow> same_handle a c"
  by (simp add: same_handle_def)

lemma send_data_to_api_state:
  assumes "send_data_to_api E p s = (r, s')"
  shows "same_handle s s' \<and> lines s' = lines s \<and> calls s' = calls s @ [Post p] \<and>
         clock_reads s' = clock_reads s"
  using assms
  by (auto simp: send_data_to_api_def send_request_def logging_def same_handle_def
           split: if_splits option.splits)

lemma delete_data_from_api_state:
  assumes "delete_data_from_api E a s = (r, s')"
  shows "same_handle s s' \<and> lines s' = lines s \<and> calls s' = calls s @ [Delete a] \<and>
         clock_reads s' = clock_reads s"
  using assms
  by (auto simp: delete_data_from_api_def send_request_def logging_def same_handle_def
           split: if_splits)

lemma delete_data_from_api_result:
  assumes "delete_data_from_api E a s = (Inr d, s')"
  shows "d = ''Unblock or resubscribe a transactional Email'' \<or> d = ''Transactional Email not found''"
  using assms
  by (auto simp: delete_data_from_api_def send_request_def split: if_splits)

section \<open>One record\<close>

lemma process_record_plain:
  assumes "is_transactional r = Inr False"
  shows "process_record E a r s =
     (Inr (), writerow (upsert_row E a r s) (s\<lparr>clock_reads := Suc (clock_reads s)\<rparr>))"
  using assms by (simp add: process_record_def now_def upsert_row_def)

lemma process_record_raises:
  assumes "is_transactional r = Inl e"
  shows "process_record E a r s =
     (Inl e, writerow (upsert_row E a r s) (s\<lparr>clock_reads := Suc (clock_reads s)\<rparr>))"
  using assms by (simp add: process_record_def now_def upsert_row_def)

lemma process_record_transactional:
  assumes "is_transactional r = Inr True"
  shows "process_record E a r s =
     (case delete_data_from_api E (email r)
             (writerow (upsert_row E a r s) (s\<lparr>clock_reads := Suc (clock_reads s)\<rparr>)) of
        (Inl e, s3) \<Rightarrow> (Inl e, s3)
      | (Inr d, s3) \<Rightarrow> (Inr (), writerow (delete_row E r s d) s3))"
  using assms
  by (simp add: process_record_def now_def upsert_row_def delete_row_def Let_def
           split: prod.split sum.split)

lemma process_record_cases:
  assumes "process_record E a r s = (res, s')"
  shows "same_handle s s' \<and> clock_reads s' = Suc (clock_reads s) \<and> posts (calls s') = posts (calls s) \<and>
     ((lines s' = lines s @ [Row (upsert_row E a r s)] \<and> (res = Inr () \<longrightarrow> is_transactional r = Inr False))
      \<or> (\<exists>d. (d = ''Unblock or resubscribe a transactional Email'' \<or> d = ''Transactional Email not found'') \<and>
              res = Inr () \<and> is_transactional r = Inr True \<and>
              lines s' = lines s @ [Row (upsert_row E a r s), Row (delete_row E r s d)]))"
proof -
  let ?s2 = "writerow (upsert_row E a r s) (s\<lparr>clock_reads := Suc (clock_reads s)\<rparr>)"
  have s2: "same_handle s ?s2" "clock_reads ?s2 = Suc (clock_reads s)" "calls ?s2 = calls s"
    "lines ?s2 = lines s @ [Row (upsert_row E a r s)]"
    by (simp_all add: writerow_def same_handle_def)
  show ?thesis
  proof (cases "is_transactional r")
    case (Inl e)
    then have "process_record E a r s = (Inl e, ?s2)" by (rule process_record_raises)
    with assms have "res = Inl e" "s' = ?s2" by simp_all
    with s2 show ?thesis by simp
  next
    case (Inr b)
    show ?thesis
    proof (cases b)
      case False
      with Inr have f: "is_transactional r = Inr False" by simp
      then have "process_record E a r s = (Inr (), ?s2)" by (rule process_record_plain)
      with assms have "res = Inr ()" "s' = ?s2" by simp_all
      with s2 f show ?thesis by simp
    next
      case True
      with Inr have t: "is_transactional r = Inr True" by simp
      obtain dr s3 where d: "delete_data_from_api E (email r) ?s2 = (dr, s3)"
        by (cases "delete_data_from_api E (email r) ?s2") auto
      from delete_data_from_api_state [OF d] s2
      have s3: "same_handle s s3" "clock_reads s3 = Suc (clock_reads s)"
        "posts (calls s3) = posts (calls s)" "lines s3 = lines s @ [Row (upsert_row E a r s)]"
        by (simp_all add: same_handle_def posts_append)
      show ?thesis
      proof (cases dr)
        case (Inl e)
        with d t have "process_record E a r s = (Inl e, s3)"
          by (simp add: process_record_transactional)
        with assms have "res = Inl e" "s' = s3" by simp_all
        with s3 show ?thesis by simp
      next
        case (Inr dd)
        with d have dd: "delete_data_from_api E (email r) ?s2 = (Inr dd, s3)" by simp
        then have "process_record E a r s = (Inr (), writerow (delete_row E r s dd) s3)"
          using t by (simp add: process_record_transactional)
        with assms have r: "res = Inr ()" and s': "s' = writerow (delete_row E r s dd) s3" by simp_all
        have 1: "same_handle s s'" using s3(1) unfolding s' by (simp add: writerow_def same_handle_def)
        have 2: "clock_reads s' = Suc (clock_reads s)" using s3(2) unfolding s' by (simp add: writerow_def)
        have 3: "posts (calls s') = posts (calls s)" using s3(3) unfolding s' by (simp add: writerow_def)
        have 4: "lines s' = lines s @ [Row (upsert_row E a r s), Row (delete_row E r s dd)]"
          using s3(4) unfolding s' by (simp add: writerow_def)
        from delete_data_from_api_result [OF dd] r t 4
        have "\<exists>d. (d = ''Unblock or resubscribe a transactional Email'' \<or> d = ''Transactional Email not found'') \<and>
              res = Inr () \<and> is_transactional r = Inr True \<and>
              lines s' = lines s @ [Row (upsert_row E a r s), Row (delete_row E r s d)]"
          by blast
        with 1 2 3 show ?thesis by blast
      qed
    qed
  qed
qed

section \<open>The loops\<close>

lemma for_each_append:
  "for_each body (xs @ ys) s =
     (case for_each body xs s of
        (Inl e, s1) \<Rightarrow> (Inl e, s1)
      | (Inr u, s1) \<Rightarrow> for_each body ys s1)"
  by (induction xs arbitrary: s) (simp_all split: prod.split sum.split)

lemma for_each_rel:
  assumes step: "\<And>x s r s'. body x s = (r, s') \<Longrightarrow> R s s'"
    and refl: "\<And>s. R s s"
    and trans: "\<And>a b c. R a b \<Longrightarrow> R b c \<Longrightarrow> R a c"
  shows "for_each body xs s = (r, s') \<Longrightarrow> R s s'"
proof (induction xs arbitrary: s)
  case Nil
  then show ?case by (simp add: refl)
next
  case (Cons x xs)
  obtain r1 s1 where b: "body x s = (r1, s1)" by (cases "body x s") auto
  have 1: "R s s1" using b by (rule step)
  show ?case
  proof (cases r1)
    case (Inl e)
    with b Cons.prems have "s' = s1" by simp
    with 1 show ?thesis by simp
  next
    case (Inr u)
    with b Cons.prems have "for_each body xs s1 = (r, s')" by simp
    then have "R s1 s'" by (rule Cons.IH)
    with 1 show ?thesis by (rule trans)
  qed
qed

lemma for_each_count:
  fixes f :: "state \<Rightarrow> nat"
  assumes step: "\<And>x s u s'. body x s = (Inr u, s') \<Longrightarrow> f s' = f s + g x"
  shows "for_each body xs s = (Inr u, s') \<Longrightarrow> f s' = f s + sum_list (map g xs)"
proof (induction xs arbitrary: s)
  case Nil
  then show ?case by simp
next
  case (Cons x xs)
  obtain r1 s1 where b: "body x s = (r1, s1)" by (cases "body x s") auto
  show ?case
  proof (cases r1)
    case (Inl e)
    with b Cons.prems show ?thesis by simp
  next
    case (Inr v)
    with b have "f s1 = f s + g x" by (simp add: step)
    moreover from Inr b Cons.prems have "for_each body xs s1 = (Inr u, s')" by simp
    then have "f s' = f s1 + sum_list (map g xs)" by (rule Cons.IH)
    ultimately show ?thesis by simp
  qed
qed

lemma for_each_list:
  fixes f :: "state \<Rightarrow> 'b list"
  assumes step: "\<And>x s u s'. body x s = (Inr u, s') \<Longrightarrow> f s' = f s @ g x"
  shows "for_each body xs s = (Inr u, s') \<Longrightarrow> f s' = f s @ concat (map g xs)"
proof (induction xs arbitrary: s)
  case Nil
  then show ?case by simp
next
  case (Cons x xs)
  obtain r1 s1 where b: "body x s = (r1, s1)" by (cases "body x s") auto
  show ?case
  proof (cases r1)
    case (Inl e)
    with b Cons.prems show ?thesis by simp
  next
    case (Inr v)
    with b have "f s1 = f s @ g x" by (simp add: step)
    moreover from Inr b Cons.prems have "for_each body xs s1 = (Inr u, s')" by simp
    then have "f s' = f s1 @ concat (map g xs)" by (rule Cons.IH)
    ultimately show ?thesis by simp
  qed
qed

lemma grows_refl: "grows s s"
  by (simp add: grows_def same_handle_refl)

lemma grows_trans: "grows a b \<Longrightarrow> grows b c \<Longrightarrow> grows a c"
  unfolding grows_def using same_handle_trans prefix_order.trans by blast

lemma process_record_grows: "process_record E a r s = (res, s') \<Longrightarrow> grows s s'"
  using process_record_cases [of E a r s res s'] unfolding grows_def by auto

lemma process_record_count:
  assumes "process_record E a r s = (Inr u, s')"
  shows "length (lines s') = length (lines s) + rows_for r"
  using process_record_cases [OF assms] unfolding rows_for_def by auto

lemma process_record_posts: "process_record E a r s = (res, s') \<Longrightarrow> posts (calls s') = posts (calls s)"
  using process_record_cases [of E a r s res s'] by simp

lemma records_grows: "for_each (process_record E a) rs s = (res, s') \<Longrightarrow> grows s s'"
  by (rule for_each_rel [where R = grows and body = "process_record E a"])
     (auto intro: process_record_grows grows_refl grows_trans)

lemma records_count:
  "for_each (process_record E a) rs s = (Inr u, s')
     \<Longrightarrow> length (lines s') = length (lines s) + sum_list (map rows_for rs)"
  by (rule for_each_count [where f = "\<lambda>s. length (lines s)" and body = "process_record E a"])
     (auto intro: process_record_count)

lemma records_posts:
  "for_each (process_record E a) rs s = (res, s') \<Longrightarrow> posts (calls s') = posts (calls s)"
  by (rule for_each_rel [where R = "\<lambda>s s'. posts (calls s') = posts (calls s)"
        and body = "process_record E a"])
     (auto intro: process_record_posts)

lemma process_payload_empty: "process_payload E [] s = (Inr (), s)"
  by (simp add: process_payload_def)

lemma process_payload_nonempty:
  assumes "p \<noteq> []"
  shows "process_payload E p s =
     (case send_data_to_api E p s of
        (Inl e, s1) \<Rightarrow> (Inl e, s1)
      | (Inr api_response, s1) \<Rightarrow> for_each (process_record E api_response) p s1)"
  using assms by (simp add: process_payload_def)

lemma process_payload_cases:
  assumes "process_payload E p s = (res, s')"
  shows "grows s s' \<and>
     (res = Inr () \<longrightarrow>
        length (lines s') = length (lines s) + sum_list (map rows_for p) \<and>
        posts (calls s') = posts (calls s) @ (if p = [] then [] else [p]))"
proof (cases "p = []")
  case True
  with assms show ?thesis by (simp add: process_payload_empty grows_refl)
next
  case False
  obtain r1 s1 where sd: "send_data_to_api E p s = (r1, s1)"
    by (cases "send_data_to_api E p s") auto
  from send_data_to_api_state [OF sd]
  have s1: "grows s s1" "lines s1 = lines s" "posts (calls s1) = posts (calls s) @ [p]"
    by (simp_all add: grows_def posts_append)
  show ?thesis
  proof (cases r1)
    case (Inl e)
    with sd False assms have "res = Inl e" "s' = s1" by (simp_all add: process_payload_nonempty)
    with s1 show ?thesis by simp
  next
    case (Inr a)
    with sd False assms have l: "for_each (process_record E a) p s1 = (res, s')"
      by (simp add: process_payload_nonempty)
    from records_grows [OF l] s1(1) have g: "grows s s'" by (blast intro: grows_trans)
    have p: "posts (calls s') = posts (calls s) @ [p]" using records_posts [OF l] s1(3) by simp
    have "res = Inr () \<longrightarrow> length (lines s') = length (lines s) + sum_list (map rows_for p)"
    proof
      assume "res = Inr ()"
      with l have "for_each (process_record E a) p s1 = (Inr (), s')" by simp
      from records_count [OF this] s1(2) show "length (lines s') = length (lines s) + sum_list (map rows_for p)"
        by simp
    qed
    with g p False show ?thesis by simp
  qed
qed

lemma payloads_grows: "for_each (process_payload E) ps s = (res, s') \<Longrightarrow> grows s s'"
  by (rule for_each_rel [where R = grows and body = "process_payload E"])
     (auto dest: process_payload_cases intro: grows_refl grows_trans)

lemma payloads_count:
  assumes "for_each (process_payload E) ps s = (Inr u, s')"
  shows "length (lines s') = length (lines s) + sum_list (map rows_for (concat ps))"
proof -
  have "length (lines s') = length (lines s) + sum_list (map (\<lambda>p. sum_list (map rows_for p)) ps)"
    by (rule for_each_count [where f = "\<lambda>s. length (lines s)" and body = "process_payload E",
          OF _ assms])
       (auto dest: process_payload_cases)
  also have "sum_list (map (\<lambda>p. sum_list (map rows_for p)) ps) = sum_list (map rows_for (concat ps))"
    by (induction ps) simp_all
  finally show ?thesis .
qed

lemma payloads_posts:
  assumes "for_each (process_payload E) ps s = (Inr u, s')"
  shows "posts (calls s') = posts (calls s) @ filter (\<lambda>p. p \<noteq> []) ps"
proof -
  have "posts (calls s') = posts (calls s) @ concat (map (\<lambda>p. if p = [] then [] else [p]) ps)"
    by (rule for_each_list [where f = "\<lambda>s. posts (calls s)" and body = "process_payload E",
          OF _ assms])
       (auto dest: process_payload_cases)
  also have "concat (map (\<lambda>p. if p = [] then [] else [p]) ps) = filter (\<lambda>p. p \<noteq> []) ps"
    by (induction ps) simp_all
  finally show ?thesis .
qed

section \<open>The run\<close>

lemma create_tables_definitions_ok:
  "setup_ok E \<Longrightarrow> create_tables_definitions E s = (Inr (), opened s)"
  by (simp add: setup_ok_def create_tables_definitions_def opened_def)

lemma create_tables_definitions_fails:
  "\<not> setup_ok E \<Longrightarrow> \<exists>e. create_tables_definitions E s = (Inl e, s)"
  by (auto simp: setup_ok_def create_tables_definitions_def split: option.splits)

lemma parse_table_one: "in_tables E = [t] \<Longrightarrow> parse_table E s = (Inr (frame t), loaded t s)"
  by (simp add: parse_table_def loaded_def Let_def)

lemma parse_table_not_one:
  "length (in_tables E) \<noteq> 1 \<Longrightarrow> \<exists>m. parse_table E s = (Inl (UserException m), s)"
  by (cases "in_tables E") (auto simp: parse_table_def)

lemma run_try_setup_fails: "\<not> setup_ok E \<Longrightarrow> \<exists>e. run_try n E s = (Inl e, s)"
  using create_tables_definitions_fails [of E s] by (auto simp: run_try_def)

lemma run_try_not_one:
  assumes "setup_ok E" "length (in_tables E) \<noteq> 1"
  shows "\<exists>m. run_try n E s = (Inl (UserException m), opened s)"
  using parse_table_not_one [OF assms(2), of "opened s"]
  by (auto simp: run_try_def create_tables_definitions_ok [OF assms(1)])

lemma run_try_one:
  assumes "setup_ok E" "in_tables E = [t]"
  shows "run_try n E s =
     (case select_columns (frame t) of
        Inl e \<Rightarrow> (Inl e, loaded t (opened s))
      | Inr selected \<Rightarrow>
     (case normalize selected of
        Inl e \<Rightarrow> (Inl e, loaded t (opened s))
      | Inr records \<Rightarrow>
        if n = 0 then (Inl (ValueError ''range() arg 3 must not be zero''), loaded t (opened s))
        else for_each (process_payload E) (payloads n records) (loaded t (opened s))))"
  by (simp add: run_try_def create_tables_definitions_ok [OF assms(1)] parse_table_one [OF assms(2)])

lemma loaded_state:
  "same_handle s (loaded t s) \<and> lines (loaded t s) = lines s \<and> calls (loaded t s) = calls s"
  by (simp add: loaded_def logging_def same_handle_def Let_def)

lemma opened_state:
  "output_file_set (opened s) \<and> file_open (opened s) \<and> opens (opened s) = Suc (opens s) \<and>
   closes (opened s) = closes s \<and> lines (opened s) = [Header output_fields] \<and>
   calls (opened s) = calls s"
  by (simp add: opened_def)

lemma grows_loaded_opened:
  assumes "grows (loaded t (opened s)) s'"
  shows "output_file_set s' \<and> file_open s' \<and> opens s' = Suc (opens s) \<and> closes s' = closes s"
  using assms loaded_state [of "opened s" t] opened_state [of s]
  by (simp add: grows_def same_handle_def)

text \<open>What the \<^verbatim>\<open>try\<close> block leaves behind once the file is open.\<close>

lemma run_try_handle:
  assumes "setup_ok E" "run_try n E s = (r, s')"
  shows "output_file_set s' \<and> file_open s' \<and> opens s' = Suc (opens s) \<and> closes s' = closes s"
proof (cases "length (in_tables E) = 1")
  case False
  from run_try_not_one [OF assms(1) False, of n s] assms(2) have "s' = opened s" by auto
  then show ?thesis by (simp add: opened_state)
next
  case True
  then obtain t where t: "in_tables E = [t]" by (cases "in_tables E") auto
  have "grows (loaded t (opened s)) s'"
  proof (cases "select_columns (frame t)")
    case (Inl e)
    with assms(2) have "s' = loaded t (opened s)" by (simp add: run_try_one [OF assms(1) t])
    then show ?thesis by (simp add: grows_refl)
  next
    case sel: (Inr selected)
    show ?thesis
    proof (cases "normalize selected")
      case (Inl e)
      with sel assms(2) have "s' = loaded t (opened s)" by (simp add: run_try_one [OF assms(1) t])
      then show ?thesis by (simp add: grows_refl)
    next
      case (Inr records)
      show ?thesis
      proof (cases "n = 0")
        case True
        with Inr sel assms(2) have "s' = loaded t (opened s)"
          by (simp add: run_try_one [OF assms(1) t])
        then show ?thesis by (simp add: grows_refl)
      next
        case False
        with Inr sel assms(2)
        have "for_each (process_payload E) (payloads n records) (loaded t (opened s)) = (r, s')"
          by (simp add: run_try_one [OF assms(1) t])
        then show ?thesis by (rule payloads_grows)
      qed
    qed
  qed
  then show ?thesis by (rule grows_loaded_opened)
qed

text \<open>No exception of the \<^verbatim>\<open>try\<close> block is a \<^verbatim>\<open>SystemExit\<close> once the file is open.\<close>

lemma for_each_error:
  assumes "\<And>x s e s'. body x s = (Inl e, s') \<Longrightarrow> P e"
  shows "for_each body xs s = (Inl e, s') \<Longrightarrow> P e"
proof (induction xs arbitrary: s)
  case Nil
  then show ?case by simp
next
  case (Cons x xs)
  obtain r1 s1 where b: "body x s = (r1, s1)" by (cases "body x s") auto
  show ?case
  proof (cases r1)
    case (Inl e1)
    with b Cons.prems have "body x s = (Inl e, s')" by simp
    then show ?thesis by (rule assms)
  next
    case (Inr u)
    with b Cons.prems have "for_each body xs s1 = (Inl e, s')" by simp
    then show ?thesis by (rule Cons.IH)
  qed
qed

lemma send_data_to_api_error:
  "send_data_to_api E p s = (Inl e, s') \<Longrightarrow> \<not> is_exit e"
  by (auto simp: send_data_to_api_def send_request_def split: if_splits option.splits)

lemma delete_data_from_api_error:
  "delete_data_from_api E a s = (Inl e, s') \<Longrightarrow> \<not> is_exit e"
  by (auto simp: delete_data_from_api_def send_request_def split: if_splits)

lemma is_transactional_error: "is_transactional r = Inl e \<Longrightarrow> \<not> is_exit e"
  by (auto simp: is_transactional_def split: cell.splits)

lemma process_record_error:
  assumes "process_record E a r s = (Inl e, s')"
  shows "\<not> is_exit e"
proof (cases "is_transactional r")
  case (Inl e1)
  with assms have "e = e1" by (simp add: process_record_raises)
  with Inl show ?thesis by (simp add: is_transactional_error)
next
  case (Inr b)
  show ?thesis
  proof (cases b)
    case False
    with Inr assms show ?thesis by (simp add: process_record_plain)
  next
    case True
    let ?s2 = "writerow (upsert_row E a r s) (s\<lparr>clock_reads := Suc (clock_reads s)\<rparr>)"
    obtain dr s3 where d: "delete_data_from_api E (email r) ?s2 = (dr, s3)"
      by (cases "delete_data_from_api E (email r) ?s2") auto
    with True Inr assms have "dr = Inl e"
      by (cases dr) (simp_all add: process_record_transactional)
    with d show ?thesis by (simp add: delete_data_from_api_error)
  qed
qed

lemma process_payload_error:
  assumes "process_payload E p s = (Inl e, s')"
  shows "\<not> is_exit e"
proof (cases "p = []")
  case True
  with assms show ?thesis by (simp add: process_payload_empty)
next
  case False
  obtain r1 s1 where sd: "send_data_to_api E p s = (r1, s1)"
    by (cases "send_data_to_api E p s") auto
  show ?thesis
  proof (cases r1)
    case (Inl e1)
    with sd False assms have "send_data_to_api E p s = (Inl e, s1)"
      by (simp add: process_payload_nonempty)
    then show ?thesis by (rule send_data_to_api_error)
  next
    case (Inr a)
    with sd False assms have "for_each (process_record E a) p s1 = (Inl e, s')"
      by (simp add: process_payload_nonempty)
    then show ?thesis
      by (rule for_each_error [where body = "process_record E a" and P = "\<lambda>e. \<not> is_exit e", rotated])
         (rule process_record_error)
  qed
qed

lemma normalize_error: "normalize rs = Inl e \<Longrightarrow> \<not> is_exit e"
proof -
  have a: "apply_series to_bool cs = Inl e \<Longrightarrow> \<not> is_exit e" for cs
  proof (induction cs)
    case Nil
    then show ?case by simp
  next
    case (Cons c cs)
    then show ?case
      by (cases c) (auto split: sum.splits)
  qed
  assume "normalize rs = Inl e"
  then show ?thesis
    by (auto simp: normalize_def dest: a split: sum.splits)
qed

lemma select_columns_error: "select_columns df = Inl e \<Longrightarrow> \<not> is_exit e"
  by (auto simp: select_columns_def Let_def split: if_splits)

lemma run_try_error:
  assumes "setup_ok E" "run_try n E s = (Inl e, s')"
  shows "\<not> is_exit e"
proof (cases "length (in_tables E) = 1")
  case False
  from run_try_not_one [OF assms(1) False, of n s] assms(2) show ?thesis by auto
next
  case True
  then obtain t where t: "in_tables E = [t]" by (cases "in_tables E") auto
  show ?thesis
  proof (cases "select_columns (frame t)")
    case (Inl e1)
    with assms(2) have "e = e1" by (simp add: run_try_one [OF assms(1) t])
    with Inl show ?thesis by (simp add: select_columns_error)
  next
    case sel: (Inr selected)
    show ?thesis
    proof (cases "normalize selected")
      case (Inl e1)
      with sel assms(2) have "e = e1" by (simp add: run_try_one [OF assms(1) t])
      with Inl show ?thesis by (simp add: normalize_error)
    next
      case (Inr records)
      show ?thesis
      proof (cases "n = 0")
        case True
        with Inr sel assms(2) show ?thesis by (auto simp: run_try_one [OF assms(1) t])
      next
        case False
        with Inr sel assms(2)
        have "for_each (process_payload E) (payloads n records) (loaded t (opened s)) = (Inl e, s')"
          by (simp add: run_try_one [OF assms(1) t])
        then show ?thesis
          by (rule for_each_error [where body = "process_payload E" and P = "\<lambda>e. \<not> is_exit e", rotated])
             (rule process_payload_error)
      qed
    qed
  qed
qed

text \<open>The handlers and the \<^verbatim>\<open>finally\<close> block.\<close>

lemma handlers_state:
  "same_handle s (snd (handlers e s)) \<and> lines (snd (handlers e s)) = lines s \<and>
   calls (snd (handlers e s)) = calls s"
  by (cases e) (simp_all add: logging_def same_handle_def)

lemma handlers_code:
  "\<not> is_exit e \<Longrightarrow>
   fst (handlers e s) = SystemExit (case e of UserException m \<Rightarrow> 1 | _ \<Rightarrow> 2)"
  by (cases e) simp_all

lemma run_with_eq:
  "run_with n E s =
     (case run_try n E s of
        (Inr u, s1) \<Rightarrow> finally_block None s1
      | (Inl e, s1) \<Rightarrow> finally_block (Some (fst (handlers e s1))) (snd (handlers e s1)))"
  by (simp add: run_with_def split: prod.split sum.split)

lemma finally_block_set:
  "output_file_set s \<Longrightarrow>
   finally_block pending s = (pending, s\<lparr>file_open := False, closes := Suc (closes s)\<rparr>)"
  by (simp add: finally_block_def)

lemma finally_block_unset:
  "\<not> output_file_set s \<Longrightarrow> finally_block pending s = (Some (AttributeError ''_output_file''), s)"
  by (simp add: finally_block_def)

lemma finally_block_lines: "lines (snd (finally_block pending s)) = lines s"
  by (simp add: finally_block_def)

lemma finally_block_calls: "calls (snd (finally_block pending s)) = calls s"
  by (simp add: finally_block_def)

lemma run_with_lines: "lines (snd (run_with n E s)) = lines (snd (run_try n E s))"
  by (simp add: run_with_eq finally_block_lines handlers_state split: prod.split sum.split)

lemma run_with_calls: "calls (snd (run_with n E s)) = calls (snd (run_try n E s))"
  by (simp add: run_with_eq finally_block_calls handlers_state split: prod.split sum.split)

lemma run_with_ok:
  assumes "setup_ok E"
  shows "fst (run_with n E s) =
           (case fst (run_try n E s) of
              Inr u \<Rightarrow> None
            | Inl e \<Rightarrow> Some (SystemExit (case e of UserException m \<Rightarrow> 1 | _ \<Rightarrow> 2)))
         \<and> opens (snd (run_with n E s)) = Suc (opens s)
         \<and> closes (snd (run_with n E s)) = Suc (closes s)
         \<and> \<not> file_open (snd (run_with n E s))"
proof -
  obtain r s1 where rt: "run_try n E s = (r, s1)" by (cases "run_try n E s") auto
  note h = run_try_handle [OF assms rt]
  show ?thesis
  proof (cases r)
    case (Inr u)
    with rt h show ?thesis by (simp add: run_with_eq finally_block_set)
  next
    case (Inl e)
    with rt have "run_try n E s = (Inl e, s1)" by simp
    with assms have ne: "\<not> is_exit e" by (rule run_try_error)
    let ?s2 = "snd (handlers e s1)"
    from handlers_state [of s1 e] h
    have h2: "output_file_set ?s2 \<and> opens ?s2 = Suc (opens s) \<and> closes ?s2 = closes s"
      by (simp add: same_handle_def)
    with Inl rt handlers_code [OF ne, of s1] show ?thesis
      by (simp add: run_with_eq finally_block_set)
  qed
qed

lemma run_with_setup_fails:
  assumes "\<not> setup_ok E" "\<not> output_file_set s"
  shows "fst (run_with n E s) = Some (AttributeError ''_output_file'')
         \<and> opens (snd (run_with n E s)) = opens s \<and> closes (snd (run_with n E s)) = closes s
         \<and> file_open (snd (run_with n E s)) = file_open s
         \<and> lines (snd (run_with n E s)) = lines s \<and> calls (snd (run_with n E s)) = calls s"
proof -
  from run_try_setup_fails [OF assms(1)] obtain e where rt: "run_try n E s = (Inl e, s)" by blast
  let ?s2 = "snd (handlers e s)"
  from handlers_state [of s e] assms(2)
  have h2: "\<not> output_file_set ?s2" "opens ?s2 = opens s" "closes ?s2 = closes s"
    "file_open ?s2 = file_open s" "lines ?s2 = lines s" "calls ?s2 = calls s"
    by (simp_all add: same_handle_def)
  with rt show ?thesis by (simp add: run_with_eq finally_block_unset)
qed

lemma run_try_success:
  assumes "fst (run_try n E s) = Inr ()"
  shows "setup_ok E \<and> 0 < n \<and>
     (\<exists>t sel recs. in_tables E = [t] \<and> select_columns (frame t) = Inr sel \<and>
        normalize sel = Inr recs \<and>
        run_try n E s = for_each (process_payload E) (payloads n recs) (loaded t (opened s)))"
proof -
  have ok: "setup_ok E"
  proof (rule ccontr)
    assume "\<not> setup_ok E"
    from run_try_setup_fails [OF this, of n s] assms show False by auto
  qed
  have "length (in_tables E) = 1"
  proof (rule ccontr)
    assume "length (in_tables E) \<noteq> 1"
    from run_try_not_one [OF ok this, of n s] assms show False by auto
  qed
  then obtain t where t: "in_tables E = [t]" by (cases "in_tables E") auto
  note eq = run_try_one [OF ok t]
  from assms obtain sel where sel: "select_columns (frame t) = Inr sel"
    by (cases "select_columns (frame t)") (auto simp: eq)
  from assms obtain recs where recs: "normalize sel = Inr recs"
    by (cases "normalize sel") (auto simp: eq sel)
  from assms have n: "0 < n"
    by (cases "n = 0") (auto simp: eq sel recs)
  with eq sel recs
  have "run_try n E s = for_each (process_payload E) (payloads n recs) (loaded t (opened s))"
    by simp
  with ok n t sel recs show ?thesis by blast
qed

lemma delete_data_from_api_204:
  assumes "status_code (http E (length (calls s)) (Delete a)) = 204"
  shows "fst (delete_data_from_api E a s) = Inr ''Unblock or resubscribe a transactional Email''"
  using assms by (simp add: delete_data_from_api_def send_request_def)

lemma delete_data_from_api_404:
  assumes "status_code (http E (length (calls s)) (Delete a)) = 404"
  shows "fst (delete_data_from_api E a s) = Inr ''Transactional Email not found''
    \<and> logged (snd (delete_data_from_api E a s))
        = logged s @ [Warning (''API returned 404 status. Response: ''
            @ response_text (http E (length (calls s)) (Delete a)))]"
  using assms by (simp add: delete_data_from_api_def send_request_def logging_def)

lemma delete_data_from_api_other:
  assumes "status_code (http E (length (calls s)) (Delete a)) \<noteq> 204"
    "status_code (http E (length (calls s)) (Delete a)) \<noteq> 404"
  shows "fst (delete_data_from_api E a s)
     = Inl (UserException (''Failed to delete data from API. Status Code: ''
          @ str_int (status_code (http E (length (calls s)) (Delete a)))
          @ '', Response: '' @ response_text (http E (length (calls s)) (Delete a))))"
  using assms by (simp add: delete_data_from_api_def send_request_def)

lemma process_record_transactional_ok:
  assumes "is_transactional r = Inr True"
    and "status_code (http E (length (calls s)) (Delete (email r))) = 204
         \<or> status_code (http E (length (calls s)) (Delete (email r))) = 404"
  shows "fst (process_record E a r s) = Inr ()
    \<and> (\<exists>d. lines (snd (process_record E a r s))
            = lines s @ [Row (upsert_row E a r s), Row (delete_row E r s d)])"
proof -
  let ?s2 = "writerow (upsert_row E a r s) (s\<lparr>clock_reads := Suc (clock_reads s)\<rparr>)"
  have c: "calls ?s2 = calls s" by (simp add: writerow_def)
  from assms(2) obtain d where "fst (delete_data_from_api E (email r) ?s2) = Inr d"
    using delete_data_from_api_204 [of E ?s2 "email r"] delete_data_from_api_404 [of E ?s2 "email r"]
    unfolding c by blast
  then obtain s3 where d: "delete_data_from_api E (email r) ?s2 = (Inr d, s3)"
    by (cases "delete_data_from_api E (email r) ?s2") auto
  then have pr: "process_record E a r s = (Inr (), writerow (delete_row E r s d) s3)"
    using assms(1) by (simp add: process_record_transactional)
  from delete_data_from_api_state [OF d]
  have "lines s3 = lines s @ [Row (upsert_row E a r s)]" by (simp add: writerow_def)
  then have "lines (snd (process_record E a r s))
            = lines s @ [Row (upsert_row E a r s), Row (delete_row E r s d)]"
    unfolding pr by (simp add: writerow_def)
  with pr show ?thesis by auto
qed

lemma is_transactional_str:
  "is_str (transactionalContact r) \<Longrightarrow> is_transactional r = Inr (spec_flag (transactionalContact r))"
  by (cases "transactionalContact r") (simp_all add: is_transactional_def spec_flag_def lower_eq_true_iff)

section \<open>The claims\<close>

lemma to_bool_of_loaded_field:
  "to_bool (read_field x) =
     (if x \<in> set na_values then Inl (AttributeError ''lower'') else Inr (x \<in> set true_spellings))"
  by (simp add: read_field_def lower_eq_true_iff)

lemma true_spellings_listed:
  "true_spellings =
       [''true'', ''truE'', ''trUe'', ''trUE'', ''tRue'', ''tRuE'', ''tRUe'', ''tRUE'',
        ''True'', ''TruE'', ''TrUe'', ''TrUE'', ''TRue'', ''TRuE'', ''TRUe'', ''TRUE'']"
  by (simp add: true_spellings_def)

lemma to_bool_examples:
  "to_bool (read_field ''TRUE'') = Inr True \<and> to_bool (read_field ''true'') = Inr True
   \<and> to_bool (read_field ''False'') = Inr False \<and> to_bool (read_field ''xyz'') = Inr False"
  by code_simp

text \<open>
  C4. Normalization is to map the \<^verbatim>\<open>emailBlacklisted\<close> and \<^verbatim>\<open>smsBlacklisted\<close> columns of
  every record to true if and only if the original string equals \<^verbatim>\<open>"true"\<close>
  case-insensitively, and every other value, the empty string included, to false. The code
  does not do so for an empty field: \<^verbatim>\<open>pd.read_csv\<close> loads it as \<^verbatim>\<open>nan\<close>, the lambda of line
  134 calls \<^verbatim>\<open>.lower()\<close> on it and raises \<^verbatim>\<open>AttributeError\<close>, and the run exits with code 2
  before any request, leaving the header as the only line of the output. On the table with
  the one record \<^verbatim>\<open>a@x.io,true,,false\<close>:
\<close>

theorem empty_flag_field_raises:
  "data frame_with_empty_flag = [ [Str ''a@x.io'', Str ''true'', NaN, Str ''false'']]
   \<and> select_columns frame_with_empty_flag
       = Inr [\<lparr> raw_email = Str ''a@x.io'', raw_emailBlacklisted = Str ''true'',
                raw_smsBlacklisted = NaN, raw_transactionalContact = Str ''false'' \<rparr>]
   \<and> to_bool (read_field '''') = Inl (AttributeError ''lower'')
   \<and> normalize [\<lparr> raw_email = Str ''a@x.io'', raw_emailBlacklisted = Str ''true'',
                   raw_smsBlacklisted = NaN, raw_transactionalContact = Str ''false'' \<rparr>]
       = Inl (AttributeError ''lower'')
   \<and> fst (run (example_env frame_with_empty_flag all_204)) = Some (SystemExit 2)
   \<and> exit_code (fst (run (example_env frame_with_empty_flag all_204))) = Some 2
   \<and> calls (snd (run (example_env frame_with_empty_flag all_204))) = []
   \<and> lines (snd (run (example_env frame_with_empty_flag all_204)))
       = [Header [''id'', ''timestamp'', ''email'', ''status'']]"
  by code_simp

text \<open>
  C7. For a batch size \<open>n > 0\<close>, \<open>K\<close> records are split into \<open>\<lceil>K / n\<rceil>\<close> groups, the
  \<open>i\<close>-th being the \<open>n\<close> records from position \<open>i * n\<close> on: every group has \<open>n\<close> records
  except possibly the last, none is empty, and their concatenation is the original
  sequence. A loop over groups that completes has sent one upsert request per non-empty
  group, in order, and none for an empty group.
\<close>

theorem batching_contiguous_groups:
  assumes "0 < n"
  shows "length (payloads n xs) = (length xs + n - 1) div n
    \<and> length xs \<le> length (payloads n xs) * n \<and> length (payloads n xs) * n < length xs + n
    \<and> concat (payloads n xs) = xs
    \<and> (\<forall>i < length (payloads n xs).
          payloads n xs ! i = take n (drop (i * n) xs)
          \<and> length (payloads n xs ! i)
              = (if Suc i < length (payloads n xs) then n else length xs - i * n)
          \<and> 0 < length (payloads n xs ! i) \<and> length (payloads n xs ! i) \<le> n)
    \<and> (fst (for_each (process_payload E) ps s) = Inr ()
          \<longrightarrow> posts (calls (snd (for_each (process_payload E) ps s)))
                = posts (calls s) @ filter (\<lambda>p. p \<noteq> []) ps)
    \<and> (fst (for_each (process_payload E) (payloads n ys) s) = Inr ()
          \<longrightarrow> posts (calls (snd (for_each (process_payload E) (payloads n ys) s)))
                = posts (calls s) @ payloads n ys)"
proof -
  let ?m = "(length xs + n - 1) div n"
  have 1: "length (payloads n xs) = ?m" by (rule length_payloads)
  have 2: "length xs \<le> length (payloads n xs) * n"
    unfolding 1 using assms by (rule ceil_covers)
  have "?m * n \<le> length xs + n - 1" by simp
  then have 3: "length (payloads n xs) * n < length xs + n"
    unfolding 1 using assms by linarith
  have 4: "concat (payloads n xs) = xs" using assms by (rule concat_payloads)
  have 5: "\<forall>i < length (payloads n xs).
          payloads n xs ! i = take n (drop (i * n) xs)
          \<and> length (payloads n xs ! i)
              = (if Suc i < length (payloads n xs) then n else length xs - i * n)
          \<and> 0 < length (payloads n xs ! i) \<and> length (payloads n xs ! i) \<le> n"
    using size_payloads [OF assms] nth_payloads by blast
  have 6: "posts (calls (snd (for_each (process_payload E) qs s)))
                = posts (calls s) @ filter (\<lambda>p. p \<noteq> []) qs"
    if "fst (for_each (process_payload E) qs s) = Inr ()" for qs
  proof -
    from that have "for_each (process_payload E) qs s
        = (Inr (), snd (for_each (process_payload E) qs s))"
      by (metis prod.collapse)
    then show ?thesis by (rule payloads_posts)
  qed
  have "\<forall>p \<in> set (payloads n ys). p \<noteq> []"
  proof
    fix p assume "p \<in> set (payloads n ys)"
    then obtain i where "i < length (payloads n ys)" "p = payloads n ys ! i"
      by (auto simp: in_set_conv_nth)
    with size_payloads [OF assms, of i ys] show "p \<noteq> []" by auto
  qed
  then have 7: "filter (\<lambda>p. p \<noteq> []) (payloads n ys) = payloads n ys" by simp
  have 8: "fst (for_each (process_payload E) ps s) = Inr ()
          \<longrightarrow> posts (calls (snd (for_each (process_payload E) ps s)))
                = posts (calls s) @ filter (\<lambda>p. p \<noteq> []) ps"
    using 6 [of ps] by blast
  have 9: "fst (for_each (process_payload E) (payloads n ys) s) = Inr ()
          \<longrightarrow> posts (calls (snd (for_each (process_payload E) (payloads n ys) s)))
                = posts (calls s) @ payloads n ys"
    using 6 [of "payloads n ys"] 7 by simp
  from 1 2 3 4 5 8 9 show ?thesis by blast
qed

theorem batching_contiguous_groups_witness:
  "0 < (2::nat)
   \<and> payloads 2 [example_contact ''a'', example_contact ''b'', example_contact ''c'']
       = [ [example_contact ''a'', example_contact ''b''], [example_contact ''c'']]
   \<and> length (payloads 2 [example_contact ''a'', example_contact ''b'', example_contact ''c'']) = 2
   \<and> fst (for_each (process_payload (example_env example_frame all_204))
            [ [example_contact ''a''], [], [example_contact ''c'']] init) = Inr ()
   \<and> posts (calls (snd (for_each (process_payload (example_env example_frame all_204))
            [ [example_contact ''a''], [], [example_contact ''c'']] init)))
       = [ [example_contact ''a''], [example_contact ''c'']]"
proof -
  let ?xs = "[example_contact ''a'', example_contact ''b'', example_contact ''c'']"
  let ?ps = "[ [example_contact ''a''], [], [example_contact ''c'']]"
  let ?E = "example_env example_frame all_204"
  have n: "0 < (2::nat)" by simp
  have p: "payloads 2 ?xs = [ [example_contact ''a'', example_contact ''b''], [example_contact ''c'']]"
    by code_simp
  have f: "fst (for_each (process_payload ?E) ?ps init) = Inr ()"
    by code_simp
  have c: "calls init = []" by (simp add: init_def)
  from batching_contiguous_groups [OF n, of ?xs ?E ?ps init] f
  have "length (payloads 2 ?xs) = (length ?xs + 2 - 1) div 2"
    and "posts (calls (snd (for_each (process_payload ?E) ?ps init)))
           = posts (calls init) @ filter (\<lambda>p. p \<noteq> []) ?ps"
    by blast+
  with n p f c show ?thesis by simp
qed

lemma audit_rows_when_calls_succeed:
  "(is_str (transactionalContact r)
      \<longrightarrow> is_transactional r = Inr (spec_flag (transactionalContact r)))
   \<and> is_transactional (example_contact ''TRUE'') = Inr True
   \<and> is_transactional (example_contact ''false'') = Inr False
   \<and> (is_transactional r = Inr True
        \<and> (status_code (http E (length (calls s)) (Delete (email r))) = 204
           \<or> status_code (http E (length (calls s)) (Delete (email r))) = 404)
      \<longrightarrow> fst (process_record E a r s) = Inr ()
          \<and> (\<exists>d. lines (snd (process_record E a r s))
                  = lines s @ [Row (upsert_row E a r s), Row (delete_row E r s d)]))
   \<and> (is_transactional r = Inr False
      \<longrightarrow> fst (process_record E a r s) = Inr ()
          \<and> lines (snd (process_record E a r s)) = lines s @ [Row (upsert_row E a r s)])
   \<and> rows_for r = (if is_transactional r = Inr True then 2 else 1)
   \<and> (fst (for_each (process_payload E) ps s) = Inr ()
      \<longrightarrow> length (lines (snd (for_each (process_payload E) ps s)))
            = length (lines s) + sum_list (map rows_for (concat ps)))
   \<and> (fst (run_try n E init) = Inr ()
      \<longrightarrow> (\<exists>t sel recs. in_tables E = [t] \<and> select_columns (frame t) = Inr sel
              \<and> normalize sel = Inr recs
              \<and> length (lines (snd (run_with n E init))) = 1 + sum_list (map rows_for recs)))"
proof -
  have 1: "is_str (transactionalContact r)
      \<longrightarrow> is_transactional r = Inr (spec_flag (transactionalContact r))"
    by (simp add: is_transactional_str)
  have 2: "is_transactional (example_contact ''TRUE'') = Inr True"
    "is_transactional (example_contact ''false'') = Inr False"
    by code_simp+
  have 3: "is_transactional r = Inr True
        \<and> (status_code (http E (length (calls s)) (Delete (email r))) = 204
           \<or> status_code (http E (length (calls s)) (Delete (email r))) = 404)
      \<longrightarrow> fst (process_record E a r s) = Inr ()
          \<and> (\<exists>d. lines (snd (process_record E a r s))
                  = lines s @ [Row (upsert_row E a r s), Row (delete_row E r s d)])"
    using process_record_transactional_ok [of r E s a] by blast
  have 4: "is_transactional r = Inr False
      \<longrightarrow> fst (process_record E a r s) = Inr ()
          \<and> lines (snd (process_record E a r s)) = lines s @ [Row (upsert_row E a r s)]"
    by (simp add: process_record_plain writerow_def)
  have 5: "rows_for r = (if is_transactional r = Inr True then 2 else 1)"
    by (rule rows_for_def)
  have 6: "fst (for_each (process_payload E) ps s) = Inr ()
      \<longrightarrow> length (lines (snd (for_each (process_payload E) ps s)))
            = length (lines s) + sum_list (map rows_for (concat ps))"
  proof
    assume "fst (for_each (process_payload E) ps s) = Inr ()"
    then have "for_each (process_payload E) ps s
        = (Inr (), snd (for_each (process_payload E) ps s))"
      by (metis prod.collapse)
    then show "length (lines (snd (for_each (process_payload E) ps s)))
            = length (lines s) + sum_list (map rows_for (concat ps))"
      by (rule payloads_count)
  qed
  have 7: "fst (run_try n E init) = Inr ()
      \<longrightarrow> (\<exists>t sel recs. in_tables E = [t] \<and> select_columns (frame t) = Inr sel
              \<and> normalize sel = Inr recs
              \<and> length (lines (snd (run_with n E init))) = 1 + sum_list (map rows_for recs))"
  proof
    assume ok: "fst (run_try n E init) = Inr ()"
    from run_try_success [OF ok] obtain t sel recs where
      n: "0 < n" and t: "in_tables E = [t]" and sel: "select_columns (frame t) = Inr sel"
      and recs: "normalize sel = Inr recs"
      and eq: "run_try n E init
                 = for_each (process_payload E) (payloads n recs) (loaded t (opened init))"
      by blast
    from ok eq have "for_each (process_payload E) (payloads n recs) (loaded t (opened init))
        = (Inr (), snd (run_try n E init))"
      by (metis prod.collapse)
    from payloads_count [OF this]
    have "length (lines (snd (run_try n E init)))
        = length (lines (loaded t (opened init))) + sum_list (map rows_for recs)"
      by (simp add: concat_payloads [OF n])
    moreover have "lines (loaded t (opened init)) = [Header output_fields]"
      using loaded_state [of "opened init" t] opened_state [of init] by simp
    ultimately have "length (lines (snd (run_with n E init))) = 1 + sum_list (map rows_for recs)"
      by (simp add: run_with_lines)
    with t sel recs
    show "\<exists>t sel recs. in_tables E = [t] \<and> select_columns (frame t) = Inr sel
              \<and> normalize sel = Inr recs
              \<and> length (lines (snd (run_with n E init))) = 1 + sum_list (map rows_for recs)"
      by blast
  qed
  from 1 2 3 4 5 6 7 show ?thesis by blast
qed

text \<open>
  C2. Every input record is to get exactly two audit rows when its raw
  \<^verbatim>\<open>transactionalContact\<close> value equals \<^verbatim>\<open>"true"\<close> case-insensitively and exactly one
  otherwise, the empty string included; line 169 reads the value with the default
  \<^verbatim>\<open>''\<close> for that purpose. The code does not do so when the field is empty: it is loaded
  as \<^verbatim>\<open>nan\<close>, the upsert row of the record is written, \<^verbatim>\<open>.lower()\<close> then raises
  \<^verbatim>\<open>AttributeError\<close> and the run exits with code 2, so that the records after it get no
  request and no row. On the table with the records \<^verbatim>\<open>a@x.io,false,false,\<close> and
  \<^verbatim>\<open>b@x.io,false,false,true\<close>, every request answered 204:
\<close>

theorem empty_transactional_contact_aborts_run:
  "data frame_with_empty_transactional
     = [ [Str ''a@x.io'', Str ''false'', Str ''false'', NaN],
         [Str ''b@x.io'', Str ''false'', Str ''false'', Str ''true'']]
   \<and> is_transactional \<lparr> email = Str ''a@x.io'', emailBlacklisted = False,
          smsBlacklisted = False, transactionalContact = NaN \<rparr> = Inl (AttributeError ''lower'')
   \<and> fst (run (example_env frame_with_empty_transactional all_204)) = Some (SystemExit 2)
   \<and> exit_code (fst (run (example_env frame_with_empty_transactional all_204))) = Some 2
   \<and> calls (snd (run (example_env frame_with_empty_transactional all_204)))
       = [Post [\<lparr> email = Str ''a@x.io'', emailBlacklisted = False, smsBlacklisted = False,
                  transactionalContact = NaN \<rparr>]]
   \<and> lines (snd (run (example_env frame_with_empty_transactional all_204)))
       = [Header [''id'', ''timestamp'', ''email'', ''status''],
          Row \<lparr> row_id = ''md5:a@x.io2024-01-01 00:00:00'',
                row_timestamp = ''2024-01-01 00:00:00'', row_email = Str ''a@x.io'',
                row_status = PyStr ''Email updated (Sms,Email)'' \<rparr>]"
  by code_simp

lemma process_record_delete_row:
  assumes "is_transactional r = Inr True"
    and "fst (delete_data_from_api E (email r)
               (writerow (upsert_row E a r s) (s\<lparr>clock_reads := Suc (clock_reads s)\<rparr>))) = Inr x"
  shows "lines (snd (process_record E a r s))
           = lines s @ [Row (upsert_row E a r s), Row (delete_row E r s x)]"
proof -
  let ?s2 = "writerow (upsert_row E a r s) (s\<lparr>clock_reads := Suc (clock_reads s)\<rparr>)"
  from assms(2) obtain s3 where d: "delete_data_from_api E (email r) ?s2 = (Inr x, s3)"
    by (cases "delete_data_from_api E (email r) ?s2") auto
  then have pr: "process_record E a r s = (Inr (), writerow (delete_row E r s x) s3)"
    using assms(1) by (simp add: process_record_transactional)
  from delete_data_from_api_state [OF d]
  have "lines s3 = lines s @ [Row (upsert_row E a r s)]"
    by (simp add: writerow_def)
  then show ?thesis unfolding pr by (simp add: writerow_def)
qed

lemma process_record_delete_row_by_status:
  assumes "is_transactional r = Inr True"
  shows "(status_code (http E (length (calls s)) (Delete (email r))) = 204
           \<longrightarrow> lines (snd (process_record E a r s))
                 = lines s @ [Row (upsert_row E a r s),
                              Row (delete_row E r s ''Unblock or resubscribe a transactional Email'')])
       \<and> (status_code (http E (length (calls s)) (Delete (email r))) = 404
           \<longrightarrow> lines (snd (process_record E a r s))
                 = lines s @ [Row (upsert_row E a r s),
                              Row (delete_row E r s ''Transactional Email not found'')])"
proof -
  let ?s2 = "writerow (upsert_row E a r s) (s\<lparr>clock_reads := Suc (clock_reads s)\<rparr>)"
  have c: "calls ?s2 = calls s" by (simp add: writerow_def)
  show ?thesis
    using process_record_delete_row [OF assms, of E a s]
      delete_data_from_api_204 [of E ?s2 "email r"] delete_data_from_api_404 [of E ?s2 "email r"]
    unfolding c by blast
qed

lemma upsert_row_clock:
  "clock_reads s1 = clock_reads s \<Longrightarrow> upsert_row E a r s1 = upsert_row E a r s"
  by (simp add: upsert_row_def)

lemma process_payload_single_row:
  assumes "fst (send_data_to_api E [r] s) = Inr a"
  shows "\<exists>rest. lines (snd (process_payload E [r] s)) = lines s @ Row (upsert_row E a r s) # rest"
proof -
  from assms obtain s1 where sd: "send_data_to_api E [r] s = (Inr a, s1)"
    by (cases "send_data_to_api E [r] s") auto
  from send_data_to_api_state [OF sd]
  have s1: "lines s1 = lines s" "clock_reads s1 = clock_reads s" by simp_all
  obtain res s' where pr: "process_record E a r s1 = (res, s')"
    by (cases "process_record E a r s1") auto
  from process_record_cases [OF pr]
  have "\<exists>rest. lines s' = lines s1 @ Row (upsert_row E a r s1) # rest" by auto
  then have l: "\<exists>rest. lines s' = lines s @ Row (upsert_row E a r s) # rest"
    unfolding s1(1) upsert_row_clock [OF s1(2)] .
  have "snd (process_payload E [r] s) = s'"
    using sd pr by (cases res) (simp_all add: process_payload_nonempty)
  with l show ?thesis by simp
qed

lemma send_data_to_api_by_status:
  "(status_code (http E (length (calls s)) (Post p)) = 204
      \<longrightarrow> fst (send_data_to_api E p s) = Inr (PyStr ''Email updated (Sms,Email)''))
   \<and> (status_code (http E (length (calls s)) (Post p)) = 404
      \<longrightarrow> fst (send_data_to_api E p s) = Inr (PyStr ''Email not found''))
   \<and> (status_code (http E (length (calls s)) (Post p)) = 200
        \<and> json (http E (length (calls s)) (Post p)) = Some v
      \<longrightarrow> fst (send_data_to_api E p s) = Inr v)"
  by (simp add: send_data_to_api_def send_request_def)

text \<open>
  C5. The status of the upsert audit row is the upsert outcome itself when the outcome is
  not a \<^verbatim>\<open>dict\<close> (a sentinel string in particular); for a \<^verbatim>\<open>dict\<close> it is the value under
  \<^verbatim>\<open>'status'\<close>, and the string \<^verbatim>\<open>"Error"\<close> when that key is absent. The outcome is the one
  \<^verbatim>\<open>send_data_to_api\<close> returned for the batch of the record: every record of the batch is
  processed with it, and the first row written for a record carries its status, so that a
  204 is recorded as \<^verbatim>\<open>"Email updated (Sms,Email)"\<close>, a 404 as \<^verbatim>\<open>"Email not found"\<close> and a
  200 with the extraction from its body. The extraction is not applied to the delete
  outcome: the second row of a transactional record carries, as it is, the string that
  \<^verbatim>\<open>delete_data_from_api\<close> returned for this record, the 204 sentinel after a 204 and the
  404 sentinel after a 404; a record that is not transactional has no second row.
\<close>

theorem upsert_status_extraction:
  "status_of (PyStr x) = PyStr x
   \<and> ((\<forall>d. a \<noteq> PyDict d) \<longrightarrow> status_of a = a)
   \<and> status_of (PyDict d)
       = (case map_of d ''status'' of Some v \<Rightarrow> v | None \<Rightarrow> PyStr ''Error'')
   \<and> status_of (PyDict [(''status'', PyStr ''queued'')]) = PyStr ''queued''
   \<and> status_of (PyDict [(''code'', PyStr ''x'')]) = PyStr ''Error''
   \<and> (p \<noteq> [] \<and> send_data_to_api E p s = (Inr a, s1)
      \<longrightarrow> process_payload E p s = for_each (process_record E a) p s1)
   \<and> row_status (upsert_row E a r s) = status_of a
   \<and> row_status (delete_row E r s x) = PyStr x
   \<and> (\<exists>rest. lines (snd (process_record E a r s)) = lines s @ Row (upsert_row E a r s) # rest)
   \<and> (status_code (http E (length (calls s)) (Post [r])) = 204
      \<longrightarrow> (\<exists>rest. lines (snd (process_payload E [r] s))
             = lines s @ Row (upsert_row E (PyStr ''Email updated (Sms,Email)'') r s) # rest))
   \<and> (status_code (http E (length (calls s)) (Post [r])) = 404
      \<longrightarrow> (\<exists>rest. lines (snd (process_payload E [r] s))
             = lines s @ Row (upsert_row E (PyStr ''Email not found'') r s) # rest))
   \<and> (status_code (http E (length (calls s)) (Post [r])) = 200
        \<and> json (http E (length (calls s)) (Post [r])) = Some v
      \<longrightarrow> (\<exists>rest. lines (snd (process_payload E [r] s))
             = lines s @ Row (upsert_row E v r s) # rest))
   \<and> (is_transactional r = Inr True
        \<and> fst (delete_data_from_api E (email r)
                 (writerow (upsert_row E a r s) (s\<lparr>clock_reads := Suc (clock_reads s)\<rparr>))) = Inr x
      \<longrightarrow> lines (snd (process_record E a r s))
            = lines s @ [Row (upsert_row E a r s), Row (delete_row E r s x)])
   \<and> (is_transactional r = Inr True
        \<and> status_code (http E (length (calls s)) (Delete (email r))) = 204
      \<longrightarrow> lines (snd (process_record E a r s))
            = lines s @ [Row (upsert_row E a r s),
                         Row (delete_row E r s ''Unblock or resubscribe a transactional Email'')])
   \<and> (is_transactional r = Inr True
        \<and> status_code (http E (length (calls s)) (Delete (email r))) = 404
      \<longrightarrow> lines (snd (process_record E a r s))
            = lines s @ [Row (upsert_row E a r s),
                         Row (delete_row E r s ''Transactional Email not found'')])
   \<and> (is_transactional r = Inr False
      \<longrightarrow> lines (snd (process_record E a r s)) = lines s @ [Row (upsert_row E a r s)])"
proof -
  have 1: "status_of (PyStr x) = PyStr x" by simp
  have 2: "(\<forall>d. a \<noteq> PyDict d) \<longrightarrow> status_of a = a" by (cases a) simp_all
  have 3: "status_of (PyDict d)
       = (case map_of d ''status'' of Some v \<Rightarrow> v | None \<Rightarrow> PyStr ''Error'')"
    by (simp add: dict_get_def)
  have 4: "status_of (PyDict [(''status'', PyStr ''queued'')]) = PyStr ''queued''"
    "status_of (PyDict [(''code'', PyStr ''x'')]) = PyStr ''Error''"
    by (simp_all add: dict_get_def)
  have 5: "p \<noteq> [] \<and> send_data_to_api E p s = (Inr a, s1)
      \<longrightarrow> process_payload E p s = for_each (process_record E a) p s1"
    by (simp add: process_payload_nonempty)
  have 6: "row_status (upsert_row E a r s) = status_of a" by (simp add: upsert_row_def)
  have 7: "row_status (delete_row E r s x) = PyStr x" by (simp add: delete_row_def)
  obtain res s' where pr: "process_record E a r s = (res, s')"
    by (cases "process_record E a r s") auto
  from process_record_cases [OF pr] pr
  have 8: "\<exists>rest. lines (snd (process_record E a r s)) = lines s @ Row (upsert_row E a r s) # rest"
    by auto
  note st = send_data_to_api_by_status [of E s "[r]" v]
  have 9: "status_code (http E (length (calls s)) (Post [r])) = 204
      \<longrightarrow> (\<exists>rest. lines (snd (process_payload E [r] s))
             = lines s @ Row (upsert_row E (PyStr ''Email updated (Sms,Email)'') r s) # rest)"
    using st process_payload_single_row [of E r s "PyStr ''Email updated (Sms,Email)''"] by blast
  have 10: "status_code (http E (length (calls s)) (Post [r])) = 404
      \<longrightarrow> (\<exists>rest. lines (snd (process_payload E [r] s))
             = lines s @ Row (upsert_row E (PyStr ''Email not found'') r s) # rest)"
    using st process_payload_single_row [of E r s "PyStr ''Email not found''"] by blast
  have 11: "status_code (http E (length (calls s)) (Post [r])) = 200
        \<and> json (http E (length (calls s)) (Post [r])) = Some v
      \<longrightarrow> (\<exists>rest. lines (snd (process_payload E [r] s))
             = lines s @ Row (upsert_row E v r s) # rest)"
    using st process_payload_single_row [of E r s v] by blast
  have 12: "is_transactional r = Inr True
        \<and> fst (delete_data_from_api E (email r)
                 (writerow (upsert_row E a r s) (s\<lparr>clock_reads := Suc (clock_reads s)\<rparr>))) = Inr x
      \<longrightarrow> lines (snd (process_record E a r s))
            = lines s @ [Row (upsert_row E a r s), Row (delete_row E r s x)]"
    using process_record_delete_row [of r E a s x] by blast
  have 13: "is_transactional r = Inr True
        \<and> status_code (http E (length (calls s)) (Delete (email r))) = 204
      \<longrightarrow> lines (snd (process_record E a r s))
            = lines s @ [Row (upsert_row E a r s),
                         Row (delete_row E r s ''Unblock or resubscribe a transactional Email'')]"
    using process_record_delete_row_by_status [of r E s a] by blast
  have 14: "is_transactional r = Inr True
        \<and> status_code (http E (length (calls s)) (Delete (email r))) = 404
      \<longrightarrow> lines (snd (process_record E a r s))
            = lines s @ [Row (upsert_row E a r s),
                         Row (delete_row E r s ''Transactional Email not found'')]"
    using process_record_delete_row_by_status [of r E s a] by blast
  have 15: "is_transactional r = Inr False
      \<longrightarrow> lines (snd (process_record E a r s)) = lines s @ [Row (upsert_row E a r s)]"
    by (simp add: process_record_plain writerow_def)
  show ?thesis
    using 1 2 3 4 5 6 7 8 9 10 11 12 13 14 15 by (intro conjI)
qed

theorem upsert_status_extraction_witness:
  "(\<forall>d. PyList [PyInt 1] \<noteq> PyDict d) \<and> status_of (PyList [PyInt 1]) = PyList [PyInt 1]
   \<and> is_transactional (example_contact ''TRUE'') = Inr True
   \<and> status_code (http (example_env example_frame all_404) (length (calls init))
        (Delete (email (example_contact ''TRUE'')))) = 404
   \<and> map (\<lambda>l. case l of Row w \<Rightarrow> row_status w | Header h \<Rightarrow> PyNone)
        (lines (snd (process_record (example_env example_frame all_404) (PyStr ''Email not found'')
            (example_contact ''TRUE'') init)))
       = [PyStr ''Email not found'', PyStr ''Transactional Email not found'']
   \<and> status_code (http (example_env example_frame all_200) (length (calls init))
        (Post [example_contact ''false''])) = 200
   \<and> json (http (example_env example_frame all_200) (length (calls init))
        (Post [example_contact ''false''])) = Some (PyDict [(''status'', PyStr ''queued'')])
   \<and> map (\<lambda>l. case l of Row w \<Rightarrow> row_status w | Header h \<Rightarrow> PyNone)
        (lines (snd (process_payload (example_env example_frame all_200)
            [example_contact ''false''] init)))
       = [PyStr ''queued'']"
proof -
  let ?N = "example_env example_frame all_404"
  let ?Q = "example_env example_frame all_200"
  let ?t = "example_contact ''TRUE''"
  let ?f = "example_contact ''false''"
  let ?j = "PyDict [(''status'', PyStr ''queued'')]"
  have h: "\<forall>d. PyList [PyInt 1] \<noteq> PyDict d" by simp
  with upsert_status_extraction [of _ "PyList [PyInt 1]"]
  have 1: "status_of (PyList [PyInt 1]) = PyList [PyInt 1]" by blast
  have i: "lines init = []" "calls init = []" by (simp_all add: init_def)
  have t: "is_transactional ?t = Inr True" by code_simp
  have f: "is_transactional ?f = Inr False" by code_simp
  have d: "status_code (http ?N (length (calls init)) (Delete (email ?t))) = 404"
    by (simp add: example_env_def all_404_def)
  from upsert_status_extraction [of _ "PyStr ''Email not found''" _ _ ?N init _ ?t] t d
  have "lines (snd (process_record ?N (PyStr ''Email not found'') ?t init))
      = lines init @ [Row (upsert_row ?N (PyStr ''Email not found'') ?t init),
                      Row (delete_row ?N ?t init ''Transactional Email not found'')]"
    by blast
  then have 2: "map (\<lambda>l. case l of Row w \<Rightarrow> row_status w | Header h \<Rightarrow> PyNone)
        (lines (snd (process_record ?N (PyStr ''Email not found'') ?t init)))
       = [PyStr ''Email not found'', PyStr ''Transactional Email not found'']"
    by (simp add: i upsert_row_def delete_row_def)
  have p: "status_code (http ?Q (length (calls init)) (Post [?f])) = 200"
    "json (http ?Q (length (calls init)) (Post [?f])) = Some ?j"
    by (simp_all add: example_env_def all_200_def)
  from upsert_status_extraction [of _ _ _ _ ?Q init _ ?f ?j] p
  obtain rest where r: "lines (snd (process_payload ?Q [?f] init))
      = lines init @ Row (upsert_row ?Q ?j ?f init) # rest"
    by blast
  have "length (lines (snd (process_payload ?Q [?f] init))) = 1" by code_simp
  with r have "lines (snd (process_payload ?Q [?f] init)) = [Row (upsert_row ?Q ?j ?f init)]"
    by (simp add: i)
  then have 3: "map (\<lambda>l. case l of Row w \<Rightarrow> row_status w | Header h \<Rightarrow> PyNone)
        (lines (snd (process_payload ?Q [?f] init))) = [PyStr ''queued'']"
    by (simp add: upsert_row_def dict_get_def)
  from h 1 t d 2 p 3 show ?thesis by blast
qed




text \<open>
  C1. \<^verbatim>\<open>send_data_to_api\<close> maps the status of the response four ways: 204 to the sentinel
  \<^verbatim>\<open>"Email updated (Sms,Email)"\<close>, 200 to the parsed JSON body, 404 to the sentinel
  \<^verbatim>\<open>"Email not found"\<close> with a warning in the log and no exception, and any other status to
  a \<^verbatim>\<open>UserException\<close> whose message carries the status code and the response text; the
  loop over the batches then stops with that exception after this one request, whatever
  batches follow, and the handler answers it with \<^verbatim>\<open>exit(1)\<close>. \<^verbatim>\<open>delete_data_from_api\<close>
  maps 204 to \<^verbatim>\<open>"Unblock or resubscribe a transactional Email"\<close>, 404 to
  \<^verbatim>\<open>"Transactional Email not found"\<close> with a warning and no exception, and any other status to
  a \<^verbatim>\<open>UserException\<close>.
\<close>

theorem api_status_mapping:
  assumes "resp = http E (length (calls s)) (Post p)"
    and "dresp = http E (length (calls s)) (Delete a)"
  shows
   "(status_code resp = 204
       \<longrightarrow> fst (send_data_to_api E p s) = Inr (PyStr ''Email updated (Sms,Email)''))
    \<and> (status_code resp = 200 \<and> json resp = Some v \<longrightarrow> fst (send_data_to_api E p s) = Inr v)
    \<and> (status_code resp = 404
       \<longrightarrow> fst (send_data_to_api E p s) = Inr (PyStr ''Email not found'')
           \<and> logged (snd (send_data_to_api E p s))
               = logged s @ [Warning (''API returned 404 status. Response: '' @ response_text resp)])
    \<and> (status_code resp \<noteq> 204 \<and> status_code resp \<noteq> 200 \<and> status_code resp \<noteq> 404
       \<longrightarrow> fst (send_data_to_api E p s)
             = Inl (UserException (''Failed to send data to API. Status Code: ''
                  @ str_int (status_code resp) @ '', Response: '' @ response_text resp))
           \<and> (p \<noteq> []
              \<longrightarrow> for_each (process_payload E) (p # ps) s
                    = (Inl (UserException (''Failed to send data to API. Status Code: ''
                         @ str_int (status_code resp) @ '', Response: '' @ response_text resp)),
                       s\<lparr>calls := calls s @ [Post p]\<rparr>)))
    \<and> fst (handlers (UserException m) s) = SystemExit 1
    \<and> (status_code dresp = 204
       \<longrightarrow> fst (delete_data_from_api E a s) = Inr ''Unblock or resubscribe a transactional Email'')
    \<and> (status_code dresp = 404
       \<longrightarrow> fst (delete_data_from_api E a s) = Inr ''Transactional Email not found''
           \<and> logged (snd (delete_data_from_api E a s))
               = logged s @ [Warning (''API returned 404 status. Response: '' @ response_text dresp)])
    \<and> (status_code dresp \<noteq> 204 \<and> status_code dresp \<noteq> 404
       \<longrightarrow> fst (delete_data_from_api E a s)
             = Inl (UserException (''Failed to delete data from API. Status Code: ''
                  @ str_int (status_code dresp) @ '', Response: '' @ response_text dresp)))"
proof -
  have 1: "status_code resp = 204
       \<longrightarrow> fst (send_data_to_api E p s) = Inr (PyStr ''Email updated (Sms,Email)'')"
    unfolding assms(1) by (simp add: send_data_to_api_def send_request_def)
  have 2: "status_code resp = 200 \<and> json resp = Some v \<longrightarrow> fst (send_data_to_api E p s) = Inr v"
    unfolding assms(1) by (simp add: send_data_to_api_def send_request_def)
  have 3: "status_code resp = 404
       \<longrightarrow> fst (send_data_to_api E p s) = Inr (PyStr ''Email not found'')
           \<and> logged (snd (send_data_to_api E p s))
               = logged s @ [Warning (''API returned 404 status. Response: '' @ response_text resp)]"
    unfolding assms(1) by (simp add: send_data_to_api_def send_request_def logging_def)
  have 4: "send_data_to_api E p s
             = (Inl (UserException (''Failed to send data to API. Status Code: ''
                  @ str_int (status_code resp) @ '', Response: '' @ response_text resp)),
                s\<lparr>calls := calls s @ [Post p]\<rparr>)"
    if "status_code resp \<noteq> 204 \<and> status_code resp \<noteq> 200 \<and> status_code resp \<noteq> 404"
    using that unfolding assms(1) by (simp add: send_data_to_api_def send_request_def)
  have 5: "for_each (process_payload E) (p # ps) s
                    = (Inl (UserException (''Failed to send data to API. Status Code: ''
                         @ str_int (status_code resp) @ '', Response: '' @ response_text resp)),
                       s\<lparr>calls := calls s @ [Post p]\<rparr>)"
    if "status_code resp \<noteq> 204 \<and> status_code resp \<noteq> 200 \<and> status_code resp \<noteq> 404" "p \<noteq> []"
    using 4 [OF that(1)] that(2) by (simp add: process_payload_nonempty)
  have 6: "fst (handlers (UserException m) s) = SystemExit 1" by simp
  have 7: "status_code dresp = 204
       \<longrightarrow> fst (delete_data_from_api E a s) = Inr ''Unblock or resubscribe a transactional Email''"
    unfolding assms(2) by (simp add: delete_data_from_api_204)
  have 8: "status_code dresp = 404
       \<longrightarrow> fst (delete_data_from_api E a s) = Inr ''Transactional Email not found''
           \<and> logged (snd (delete_data_from_api E a s))
               = logged s @ [Warning (''API returned 404 status. Response: '' @ response_text dresp)]"
    unfolding assms(2) using delete_data_from_api_404 [of E s a] by blast
  have 9: "status_code dresp \<noteq> 204 \<and> status_code dresp \<noteq> 404
       \<longrightarrow> fst (delete_data_from_api E a s)
             = Inl (UserException (''Failed to delete data from API. Status Code: ''
                  @ str_int (status_code dresp) @ '', Response: '' @ response_text dresp))"
    unfolding assms(2) using delete_data_from_api_other [of E s a] by blast
  from 4 have 10: "status_code resp \<noteq> 204 \<and> status_code resp \<noteq> 200 \<and> status_code resp \<noteq> 404
       \<longrightarrow> fst (send_data_to_api E p s)
             = Inl (UserException (''Failed to send data to API. Status Code: ''
                  @ str_int (status_code resp) @ '', Response: '' @ response_text resp))"
    by simp
  from 1 2 3 10 5 6 7 8 9 show ?thesis by blast
qed

theorem api_status_mapping_witness:
  "fst (send_data_to_api (example_env example_frame all_204) [example_contact ''TRUE''] init)
     = Inr (PyStr ''Email updated (Sms,Email)'')
   \<and> fst (send_data_to_api (example_env example_frame all_200) [example_contact ''TRUE''] init)
     = Inr (PyDict [(''status'', PyStr ''queued'')])
   \<and> fst (send_data_to_api (example_env example_frame all_404) [example_contact ''TRUE''] init)
     = Inr (PyStr ''Email not found'')
   \<and> logged (snd (send_data_to_api (example_env example_frame all_404) [example_contact ''TRUE''] init))
     = [Warning ''API returned 404 status. Response: body'']
   \<and> for_each (process_payload (example_env example_frame first_500))
         [ [example_contact ''TRUE''], [example_contact ''false'']] init
     = (Inl (UserException ''Failed to send data to API. Status Code: 500, Response: body''),
        init\<lparr>calls := [Post [example_contact ''TRUE'']]\<rparr>)
   \<and> fst (delete_data_from_api (example_env example_frame all_204) (Str ''a@x.io'') init)
     = Inr ''Unblock or resubscribe a transactional Email''
   \<and> fst (delete_data_from_api (example_env example_frame all_404) (Str ''a@x.io'') init)
     = Inr ''Transactional Email not found''
   \<and> fst (delete_data_from_api (example_env example_frame first_500) (Str ''a@x.io'') init)
     = Inl (UserException ''Failed to delete data from API. Status Code: 500, Response: body'')
   \<and> exit_code (fst (run (example_env example_frame first_500))) = Some 1
   \<and> length (calls (snd (run (example_env example_frame first_500)))) = 1"
proof -
  let ?p = "[example_contact ''TRUE'']"
  let ?a = "Str ''a@x.io''"
  let ?j = "Some (PyDict [(''status'', PyStr ''queued'')])"
  let ?resp = "\<lambda>c. \<lparr> status_code = c, response_text = ''body'', json = ?j \<rparr>"
  have i: "calls init = []" "logged init = []" by (simp_all add: init_def)
  have s500: "str_int 500 = ''500''" by code_simp
  have p: "?p \<noteq> []" by simp
  have r204: "?resp 204 = http (example_env example_frame all_204) (length (calls init)) (Post ?p)"
    and d204: "?resp 204 = http (example_env example_frame all_204) (length (calls init)) (Delete ?a)"
    by (simp_all add: example_env_def all_204_def)
  have r200: "?resp 200 = http (example_env example_frame all_200) (length (calls init)) (Post ?p)"
    and d200: "?resp 200 = http (example_env example_frame all_200) (length (calls init)) (Delete ?a)"
    by (simp_all add: example_env_def all_200_def)
  have r404: "?resp 404 = http (example_env example_frame all_404) (length (calls init)) (Post ?p)"
    and d404: "?resp 404 = http (example_env example_frame all_404) (length (calls init)) (Delete ?a)"
    by (simp_all add: example_env_def all_404_def)
  have r500: "?resp 500 = http (example_env example_frame first_500) (length (calls init)) (Post ?p)"
    and d500: "?resp 500 = http (example_env example_frame first_500) (length (calls init)) (Delete ?a)"
    by (simp_all add: example_env_def first_500_def i)
  from api_status_mapping [OF r204 d204]
  have 1: "fst (send_data_to_api (example_env example_frame all_204) ?p init)
             = Inr (PyStr ''Email updated (Sms,Email)'')"
    and 6: "fst (delete_data_from_api (example_env example_frame all_204) ?a init)
             = Inr ''Unblock or resubscribe a transactional Email''"
    by simp_all
  from api_status_mapping [OF r200 d200, of "PyDict [(''status'', PyStr ''queued'')]"]
  have 2: "fst (send_data_to_api (example_env example_frame all_200) ?p init)
             = Inr (PyDict [(''status'', PyStr ''queued'')])"
    by simp
  from api_status_mapping [OF r404 d404]
  have 3: "fst (send_data_to_api (example_env example_frame all_404) ?p init)
             = Inr (PyStr ''Email not found'')"
    and 4: "logged (snd (send_data_to_api (example_env example_frame all_404) ?p init))
             = [Warning ''API returned 404 status. Response: body'']"
    and 7: "fst (delete_data_from_api (example_env example_frame all_404) ?a init)
             = Inr ''Transactional Email not found''"
    by (simp_all add: i)
  from api_status_mapping [OF r500 d500, of _ "[ [example_contact ''false'']]"] p
  have 5: "for_each (process_payload (example_env example_frame first_500))
         [?p, [example_contact ''false'']] init
     = (Inl (UserException ''Failed to send data to API. Status Code: 500, Response: body''),
        init\<lparr>calls := [Post ?p]\<rparr>)"
    and 8: "fst (delete_data_from_api (example_env example_frame first_500) ?a init)
     = Inl (UserException ''Failed to delete data from API. Status Code: 500, Response: body'')"
    by (simp_all add: i s500)
  have 9: "exit_code (fst (run (example_env example_frame first_500))) = Some 1"
    by code_simp
  have 10: "length (calls (snd (run (example_env example_frame first_500)))) = 1"
    by code_simp
  from 1 2 3 4 5 6 7 8 9 10 show ?thesis by blast
qed

text \<open>
  C6, as the code has it. Once the output file is open, the process exits with code 0 when
  the \<^verbatim>\<open>try\<close> block completes, with code 1 when it raises a \<^verbatim>\<open>UserException\<close> (no input
  table, more than one input table, a fatal API status) and with code 2 when it raises
  any other exception; a missing required column raises \<^verbatim>\<open>KeyError\<close> and so exits with
  code 2.
\<close>

theorem exit_codes:
  "(setup_ok E
      \<longrightarrow> exit_code (fst (run_with n E init))
            = Some (case fst (run_try n E init) of
                      Inr u \<Rightarrow> 0
                    | Inl (UserException m) \<Rightarrow> 1
                    | Inl e \<Rightarrow> 2))
   \<and> (setup_ok E \<and> length (in_tables E) \<noteq> 1
      \<longrightarrow> exit_code (fst (run_with n E init)) = Some 1)
   \<and> (setup_ok E \<and> in_tables E = [t] \<and> \<not> set selected_columns \<subseteq> set (columns (frame t))
      \<longrightarrow> (\<exists>missing. fst (run_try n E init) = Inl (KeyError missing))
          \<and> exit_code (fst (run_with n E init)) = Some 2)
   \<and> run E = run_with 1 E init"
proof -
  have code: "exit_code (fst (run_with n E init))
            = Some (case fst (run_try n E init) of
                      Inr u \<Rightarrow> 0
                    | Inl (UserException m) \<Rightarrow> 1
                    | Inl e \<Rightarrow> 2)"
    if ok: "setup_ok E"
  proof (cases "fst (run_try n E init)")
    case (Inr u)
    with run_with_ok [OF ok, of n init] show ?thesis by simp
  next
    case (Inl e)
    with run_with_ok [OF ok, of n init] show ?thesis by (cases e) simp_all
  qed
  have 2: "exit_code (fst (run_with n E init)) = Some 1"
    if "setup_ok E \<and> length (in_tables E) \<noteq> 1"
  proof -
    from that run_try_not_one [of E n init]
    obtain m where "run_try n E init = (Inl (UserException m), opened init)" by blast
    with code that show ?thesis by simp
  qed
  have 3: "(\<exists>missing. fst (run_try n E init) = Inl (KeyError missing))
          \<and> exit_code (fst (run_with n E init)) = Some 2"
    if "setup_ok E \<and> in_tables E = [t] \<and> \<not> set selected_columns \<subseteq> set (columns (frame t))"
  proof -
    from that have ok: "setup_ok E" and t: "in_tables E = [t]"
      and "\<not> set selected_columns \<subseteq> set (columns (frame t))"
      by blast+
    then have "filter (\<lambda>c. c \<notin> set (columns (frame t))) selected_columns \<noteq> []"
      by (auto simp: filter_empty_conv)
    then have "select_columns (frame t)
        = Inl (KeyError (filter (\<lambda>c. c \<notin> set (columns (frame t))) selected_columns))"
      by (simp add: select_columns_def Let_def)
    then have k: "fst (run_try n E init)
        = Inl (KeyError (filter (\<lambda>c. c \<notin> set (columns (frame t))) selected_columns))"
      by (simp add: run_try_one [OF ok t])
    with code [OF ok] show ?thesis by simp
  qed
  have 4: "run E = run_with 1 E init"
    by (simp add: run_def max_records_per_request_def)
  from code 2 3 4 show ?thesis by blast
qed

theorem exit_codes_witness:
  "setup_ok (example_env example_frame all_204)
   \<and> exit_code (fst (run_with 1 (example_env example_frame all_204) init)) = Some 0
   \<and> setup_ok env_no_table \<and> length (in_tables env_no_table) \<noteq> 1
   \<and> exit_code (fst (run_with 1 env_no_table init)) = Some 1
   \<and> setup_ok env_two_tables \<and> length (in_tables env_two_tables) \<noteq> 1
   \<and> exit_code (fst (run_with 1 env_two_tables init)) = Some 1
   \<and> setup_ok (example_env frame_without_email all_204)
   \<and> in_tables (example_env frame_without_email all_204)
       = [\<lparr> table_name = ''in.csv'', frame = frame_without_email \<rparr>]
   \<and> \<not> set selected_columns \<subseteq> set (columns frame_without_email)
   \<and> exit_code (fst (run_with 1 (example_env frame_without_email all_204) init)) = Some 2"
proof -
  let ?E = "example_env example_frame all_204"
  let ?M = "example_env frame_without_email all_204"
  let ?t = "\<lparr> table_name = ''in.csv'', frame = frame_without_email \<rparr>"
  have ok: "setup_ok ?E" "setup_ok env_no_table" "setup_ok env_two_tables" "setup_ok ?M"
    by (simp_all add: setup_ok_def example_env_def env_no_table_def env_two_tables_def)
  have n: "length (in_tables env_no_table) \<noteq> 1" "length (in_tables env_two_tables) \<noteq> 1"
    by (simp_all add: example_env_def env_no_table_def env_two_tables_def)
  have t: "in_tables ?M = [?t]" by (simp add: example_env_def)
  have c: "\<not> set selected_columns \<subseteq> set (columns frame_without_email)"
    by (simp add: selected_columns_def frame_without_email_def read_csv_def)
  have r: "fst (run_try 1 ?E init) = Inr ()" by code_simp
  from exit_codes [of ?E 1] ok(1) r
  have 1: "exit_code (fst (run_with 1 ?E init)) = Some 0" by simp
  from exit_codes [of env_no_table 1] ok(2) n(1)
  have 2: "exit_code (fst (run_with 1 env_no_table init)) = Some 1" by blast
  from exit_codes [of env_two_tables 1] ok(3) n(2)
  have 3: "exit_code (fst (run_with 1 env_two_tables init)) = Some 1" by blast
  from c have "\<not> set selected_columns \<subseteq> set (columns (frame ?t))" by simp
  with exit_codes [of ?M 1 ?t] ok(4) t
  have 4: "exit_code (fst (run_with 1 ?M init)) = Some 2" by blast
  from ok n t c 1 2 3 4 show ?thesis by blast
qed

text \<open>
  C6 as stated fails: on a table without the \<^verbatim>\<open>email\<close> column the selection of the columns
  raises \<^verbatim>\<open>KeyError\<close>, which the second handler answers with \<^verbatim>\<open>exit(2)\<close>, not with
  \<^verbatim>\<open>exit(1)\<close>.
\<close>

theorem missing_column_exit_code_counterexample:
  "select_columns frame_without_email = Inl (KeyError [''email''])
   \<and> fst (run (example_env frame_without_email all_204)) = Some (SystemExit 2)
   \<and> exit_code (fst (run (example_env frame_without_email all_204))) = Some 2
   \<and> exit_code (fst (run (example_env frame_without_email all_204))) \<noteq> Some 1"
  by code_simp

text \<open>
  C8. \<^verbatim>\<open>_parse_table\<close> raises a \<^verbatim>\<open>UserException\<close> if and only if the number of configured
  input tables is not one; with one table it returns the loaded frame, also when the frame
  has no rows. A run on one table with the four columns and no rows returns normally: no
  batch, no API call, and an output file that holds the header only.
\<close>

theorem table_reader_exactly_one_table:
  "((\<exists>m. fst (parse_table E s) = Inl (UserException m)) \<longleftrightarrow> length (in_tables E) \<noteq> 1)
   \<and> (in_tables E = [t] \<longrightarrow> fst (parse_table E s) = Inr (frame t))
   \<and> (setup_ok E \<and> in_tables E = [t] \<and> data (frame t) = []
        \<and> set selected_columns \<subseteq> set (columns (frame t))
      \<longrightarrow> select_columns (frame t) = Inr [] \<and> normalize [] = Inr []
          \<and> payloads max_records_per_request ([] :: contact list) = []
          \<and> fst (run E) = None \<and> exit_code (fst (run E)) = Some 0
          \<and> calls (snd (run E)) = []
          \<and> lines (snd (run E)) = [Header [''id'', ''timestamp'', ''email'', ''status'']])"
proof -
  have 1: "(\<exists>m. fst (parse_table E s) = Inl (UserException m)) \<longleftrightarrow> length (in_tables E) \<noteq> 1"
  proof (cases "length (in_tables E) = 1")
    case True
    then obtain t where "in_tables E = [t]" by (cases "in_tables E") auto
    from parse_table_one [OF this, of s] True show ?thesis by simp
  next
    case False
    from parse_table_not_one [OF this, of s] False show ?thesis by auto
  qed
  have 2: "in_tables E = [t] \<longrightarrow> fst (parse_table E s) = Inr (frame t)"
    by (simp add: parse_table_one)
  have 3: "select_columns (frame t) = Inr [] \<and> normalize [] = Inr []
          \<and> payloads max_records_per_request ([] :: contact list) = []
          \<and> fst (run E) = None \<and> exit_code (fst (run E)) = Some 0
          \<and> calls (snd (run E)) = []
          \<and> lines (snd (run E)) = [Header [''id'', ''timestamp'', ''email'', ''status'']]"
    if h: "setup_ok E \<and> in_tables E = [t] \<and> data (frame t) = []
        \<and> set selected_columns \<subseteq> set (columns (frame t))"
  proof -
    from h have ok: "setup_ok E" and t: "in_tables E = [t]" and d: "data (frame t) = []"
      and c: "set selected_columns \<subseteq> set (columns (frame t))"
      by blast+
    from c have "filter (\<lambda>c. c \<notin> set (columns (frame t))) selected_columns = []"
      by (auto simp: filter_empty_conv)
    with d have sel: "select_columns (frame t) = Inr []"
      by (simp add: select_columns_def Let_def)
    have nrm: "normalize [] = Inr []" by (simp add: normalize_def)
    have pl: "payloads max_records_per_request ([] :: contact list) = []"
      by (simp add: payloads_def py_range_def max_records_per_request_def)
    have rt: "run_try max_records_per_request E init = (Inr (), loaded t (opened init))"
      by (simp add: run_try_one [OF ok t] sel nrm payloads_def py_range_def
            max_records_per_request_def)
    have st: "lines (loaded t (opened init)) = [Header output_fields]"
      "calls (loaded t (opened init)) = []"
      using loaded_state [of "opened init" t] opened_state [of init] by (simp_all add: init_def)
    from run_with_ok [OF ok, of max_records_per_request init] rt
    have r: "fst (run E) = None" by (simp add: run_def)
    from rt st have l: "lines (snd (run E)) = [Header [''id'', ''timestamp'', ''email'', ''status'']]"
      by (simp add: run_def run_with_lines output_fields_def)
    from rt st have k: "calls (snd (run E)) = []"
      by (simp add: run_def run_with_calls)
    from sel nrm pl r l k show ?thesis by simp
  qed
  from 1 2 3 show ?thesis by blast
qed

theorem table_reader_exactly_one_table_witness:
  "setup_ok (example_env frame_without_rows all_204)
   \<and> in_tables (example_env frame_without_rows all_204)
       = [\<lparr> table_name = ''in.csv'', frame = frame_without_rows \<rparr>]
   \<and> data frame_without_rows = []
   \<and> set selected_columns \<subseteq> set (columns frame_without_rows)
   \<and> fst (run (example_env frame_without_rows all_204)) = None
   \<and> calls (snd (run (example_env frame_without_rows all_204))) = []
   \<and> lines (snd (run (example_env frame_without_rows all_204)))
       = [Header [''id'', ''timestamp'', ''email'', ''status'']]
   \<and> length (in_tables env_no_table) \<noteq> 1
   \<and> (\<exists>m. fst (parse_table env_no_table init) = Inl (UserException m))
   \<and> length (in_tables env_two_tables) \<noteq> 1
   \<and> (\<exists>m. fst (parse_table env_two_tables init) = Inl (UserException m))"
proof -
  let ?E = "example_env frame_without_rows all_204"
  let ?t = "\<lparr> table_name = ''in.csv'', frame = frame_without_rows \<rparr>"
  have ok: "setup_ok ?E" by (simp add: setup_ok_def example_env_def)
  have t: "in_tables ?E = [?t]" by (simp add: example_env_def)
  have d: "data frame_without_rows = []" by (simp add: frame_without_rows_def read_csv_def)
  have c: "set selected_columns \<subseteq> set (columns frame_without_rows)"
    by (simp add: selected_columns_def frame_without_rows_def read_csv_def)
  from d c have "data (frame ?t) = []" "set selected_columns \<subseteq> set (columns (frame ?t))"
    by simp_all
  with table_reader_exactly_one_table [of ?E _ ?t] ok t
  have r: "fst (run ?E) = None \<and> calls (snd (run ?E)) = []
    \<and> lines (snd (run ?E)) = [Header [''id'', ''timestamp'', ''email'', ''status'']]"
    by blast
  have n: "length (in_tables env_no_table) \<noteq> 1" "length (in_tables env_two_tables) \<noteq> 1"
    by (simp_all add: example_env_def env_no_table_def env_two_tables_def)
  from table_reader_exactly_one_table [of env_no_table init] n(1)
  have 1: "\<exists>m. fst (parse_table env_no_table init) = Inl (UserException m)" by blast
  from table_reader_exactly_one_table [of env_two_tables init] n(2)
  have 2: "\<exists>m. fst (parse_table env_two_tables init) = Inl (UserException m)" by blast
  from ok t d c r n 1 2 show ?thesis by blast
qed

text \<open>
  C9. When \<^verbatim>\<open>_create_tables_definitions\<close> has opened the output file, the run opens it
  once and closes it once, whatever the \<^verbatim>\<open>try\<close> block does afterwards: complete, or raise
  a fatal API error or any other exception. In every run the file is closed as often as it
  was opened and is not left open. The handlers and the \<^verbatim>\<open>finally\<close> block leave the written
  lines as they are, and the rows written by the batches already processed stay in the file
  when a later batch raises.
\<close>

theorem output_file_closed_on_every_path:
  "(setup_ok E
      \<longrightarrow> opens (snd (run_with n E init)) = 1 \<and> closes (snd (run_with n E init)) = 1)
   \<and> closes (snd (run_with n E init)) = opens (snd (run_with n E init))
   \<and> \<not> file_open (snd (run_with n E init))
   \<and> lines (snd (run_with n E init)) = lines (snd (run_try n E init))
   \<and> (fst (for_each (process_payload E) ps1 s) = Inr ()
      \<longrightarrow> prefix (lines (snd (for_each (process_payload E) ps1 s)))
                  (lines (snd (for_each (process_payload E) (ps1 @ ps2) s))))
   \<and> run E = run_with 1 E init"
proof -
  have i: "opens init = 0" "closes init = 0" "\<not> file_open init" "\<not> output_file_set init"
    by (simp_all add: init_def)
  have 1: "opens (snd (run_with n E init)) = 1 \<and> closes (snd (run_with n E init)) = 1
      \<and> \<not> file_open (snd (run_with n E init))" if "setup_ok E"
    using run_with_ok [OF that, of n init] i by simp
  have 2: "closes (snd (run_with n E init)) = opens (snd (run_with n E init))
      \<and> \<not> file_open (snd (run_with n E init))"
  proof (cases "setup_ok E")
    case True
    with 1 show ?thesis by simp
  next
    case False
    from run_with_setup_fails [OF False i(4), of n] i show ?thesis by simp
  qed
  have 3: "lines (snd (run_with n E init)) = lines (snd (run_try n E init))"
    by (rule run_with_lines)
  have 4: "prefix (lines (snd (for_each (process_payload E) ps1 s)))
                  (lines (snd (for_each (process_payload E) (ps1 @ ps2) s)))"
    if "fst (for_each (process_payload E) ps1 s) = Inr ()"
  proof -
    from that have "for_each (process_payload E) ps1 s
        = (Inr (), snd (for_each (process_payload E) ps1 s))"
      by (metis prod.collapse)
    then obtain s1 where a: "for_each (process_payload E) ps1 s = (Inr (), s1)" ..
    obtain r s2 where b: "for_each (process_payload E) ps2 s1 = (r, s2)"
      by (cases "for_each (process_payload E) ps2 s1") auto
    from payloads_grows [OF b] have "prefix (lines s1) (lines s2)" by (simp add: grows_def)
    with a b show ?thesis by (simp add: for_each_append)
  qed
  have 5: "run E = run_with 1 E init"
    by (simp add: run_def max_records_per_request_def)
  from 1 2 3 4 5 show ?thesis by blast
qed

theorem output_file_closed_on_every_path_witness:
  "setup_ok (example_env example_frame third_500)
   \<and> fst (run (example_env example_frame third_500)) = Some (SystemExit 1)
   \<and> opens (snd (run (example_env example_frame third_500))) = 1
   \<and> closes (snd (run (example_env example_frame third_500))) = 1
   \<and> \<not> file_open (snd (run (example_env example_frame third_500)))
   \<and> lines (snd (run (example_env example_frame third_500))) =
     [Header [''id'', ''timestamp'', ''email'', ''status''],
      Row \<lparr> row_id = ''md5:a@x.io2024-01-01 00:00:00'', row_timestamp = ''2024-01-01 00:00:00'',
            row_email = Str ''a@x.io'', row_status = PyStr ''Email updated (Sms,Email)'' \<rparr>,
      Row \<lparr> row_id = ''md5:a@x.io2024-01-01 00:00:00'', row_timestamp = ''2024-01-01 00:00:00'',
            row_email = Str ''a@x.io'',
            row_status = PyStr ''Unblock or resubscribe a transactional Email'' \<rparr>]"
proof -
  let ?E = "example_env example_frame third_500"
  have ok: "setup_ok ?E" by (simp add: setup_ok_def example_env_def)
  have r: "run ?E = run_with 1 ?E init"
    using output_file_closed_on_every_path [of ?E] by blast
  from output_file_closed_on_every_path [of ?E 1] ok
  have "opens (snd (run_with 1 ?E init)) = 1 \<and> closes (snd (run_with 1 ?E init)) = 1
    \<and> \<not> file_open (snd (run_with 1 ?E init))"
    by blast
  then have 1: "opens (snd (run ?E)) = 1 \<and> closes (snd (run ?E)) = 1 \<and> \<not> file_open (snd (run ?E))"
    unfolding r .
  have 2: "fst (run ?E) = Some (SystemExit 1)" by code_simp
  have 3: "lines (snd (run ?E)) =
     [Header [''id'', ''timestamp'', ''email'', ''status''],
      Row \<lparr> row_id = ''md5:a@x.io2024-01-01 00:00:00'', row_timestamp = ''2024-01-01 00:00:00'',
            row_email = Str ''a@x.io'', row_status = PyStr ''Email updated (Sms,Email)'' \<rparr>,
      Row \<lparr> row_id = ''md5:a@x.io2024-01-01 00:00:00'', row_timestamp = ''2024-01-01 00:00:00'',
            row_email = Str ''a@x.io'',
            row_status = PyStr ''Unblock or resubscribe a transactional Email'' \<rparr>]"
    by code_simp
  from ok 1 2 3 show ?thesis by blast
qed

text \<open>
  C10. \<^verbatim>\<open>__init__\<close> sets \<^verbatim>\<open>_output_writer\<close> to \<^verbatim>\<open>None\<close> and does not create
  \<^verbatim>\<open>_output_file\<close>. When \<^verbatim>\<open>_create_tables_definitions\<close> raises before assigning it, because
  creating one of the two table definitions or opening the file fails, the test of the
  \<^verbatim>\<open>finally\<close> block raises \<^verbatim>\<open>AttributeError\<close>: that exception leaves \<^verbatim>\<open>run\<close> in place of the
  \<^verbatim>\<open>SystemExit\<close> of the handler, so the run does not end with the exit code chosen for the
  failure.
\<close>

theorem unset_output_file_raises_in_finally:
  "\<not> output_file_set init \<and> \<not> output_writer_set init
   \<and> (stats_def_error E = Some e \<or> output_def_error E = Some e \<or> open_error E = Some e
      \<longrightarrow> (\<exists>e'. run_try n E init = (Inl e', init))
          \<and> fst (run_with n E init) = Some (AttributeError ''_output_file'')
          \<and> exit_code (fst (run_with n E init)) = None
          \<and> opens (snd (run_with n E init)) = 0 \<and> lines (snd (run_with n E init)) = [])
   \<and> run E = run_with 1 E init"
proof -
  have i: "\<not> output_file_set init" "\<not> output_writer_set init" "opens init = 0" "lines init = []"
    by (simp_all add: init_def)
  have 1: "(\<exists>e'. run_try n E init = (Inl e', init))
          \<and> fst (run_with n E init) = Some (AttributeError ''_output_file'')
          \<and> exit_code (fst (run_with n E init)) = None
          \<and> opens (snd (run_with n E init)) = 0 \<and> lines (snd (run_with n E init)) = []"
    if "stats_def_error E = Some e \<or> output_def_error E = Some e \<or> open_error E = Some e"
  proof -
    from that have f: "\<not> setup_ok E" by (auto simp: setup_ok_def)
    from run_with_setup_fails [OF f i(1), of n] run_try_setup_fails [OF f, of n init] i
    show ?thesis by simp
  qed
  have 2: "run E = run_with 1 E init"
    by (simp add: run_def max_records_per_request_def)
  from i 1 2 show ?thesis by blast
qed

theorem unset_output_file_raises_in_finally_witness:
  "open_error env_open_fails = Some (OSError ''output.csv'')
   \<and> run_try 1 env_open_fails init = (Inl (OSError ''output.csv''), init)
   \<and> fst (run env_open_fails) = Some (AttributeError ''_output_file'')
   \<and> exit_code (fst (run env_open_fails)) = None
   \<and> logged (snd (run env_open_fails)) = [Exception (OSError ''output.csv'')]"
proof -
  have o: "open_error env_open_fails = Some (OSError ''output.csv'')"
    by (simp add: env_open_fails_def)
  have r: "run env_open_fails = run_with 1 env_open_fails init"
    using unset_output_file_raises_in_finally [of env_open_fails] by blast
  from unset_output_file_raises_in_finally [of env_open_fails "OSError ''output.csv''" 1] o
  have "fst (run_with 1 env_open_fails init) = Some (AttributeError ''_output_file'')
      \<and> exit_code (fst (run_with 1 env_open_fails init)) = None"
    by blast
  then have 1: "fst (run env_open_fails) = Some (AttributeError ''_output_file'')
      \<and> exit_code (fst (run env_open_fails)) = None"
    unfolding r .
  have 2: "run_try 1 env_open_fails init = (Inl (OSError ''output.csv''), init)" by code_simp
  have 3: "logged (snd (run env_open_fails)) = [Exception (OSError ''output.csv'')]" by code_simp
  from o 1 2 3 show ?thesis by blast
qed

end
